theory Spec2Isabelle
  imports Complex_Main "HOL-Library.Log_Nat"
begin

section \<open>Data model\<close>

text \<open>
  The marketplace keeps three Mongoose collections: users
  (\<^verbatim>\<open>src/backend/models/User.js\<close>), needs and transactions (the two schema files
  under \<^verbatim>\<open>src/unnamed\<close>). Each schema becomes a record with the schema's paths in
  the schema's order. An ObjectId is a natural number, a Date is a count of
  milliseconds, and a path that may be absent from a document is an option. A Number
  that the handlers compute with (the credits of a user, the amount of a transaction) is
  a double, see below; a Number that is only stored and compared with 0 (a budget, a
  rating) is the rational value of its double. Identifiers are compared by value, which
  is what the array methods of Mongoose do for an ObjectId and its string form.
\<close>

type_synonym oid = nat

datatype json =
    JNull
  | JBool bool
  | JNum rat
  | JStr string
  | JId oid
  | JDate nat
  | JArr "json list"
  | JObj "(string \<times> json) list"

text \<open>Whether an object with the key \<open>k\<close> occurs anywhere in a JSON value.\<close>

fun has_key :: "string \<Rightarrow> json \<Rightarrow> bool"
  and has_key_list :: "string \<Rightarrow> json list \<Rightarrow> bool"
  and has_key_fields :: "string \<Rightarrow> (string \<times> json) list \<Rightarrow> bool" where
  "has_key k (JArr xs) = has_key_list k xs"
| "has_key k (JObj kvs) = has_key_fields k kvs"
| "has_key k JNull = False"
| "has_key k (JBool _) = False"
| "has_key k (JNum _) = False"
| "has_key k (JStr _) = False"
| "has_key k (JId _) = False"
| "has_key k (JDate _) = False"
| "has_key_list k [] = False"
| "has_key_list k (x # xs) = (has_key k x \<or> has_key_list k xs)"
| "has_key_fields k [] = False"
| "has_key_fields k (kv # kvs) = (fst kv = k \<or> has_key k (snd kv) \<or> has_key_fields k kvs)"

text \<open>The keys of an object and the value stored under a key.\<close>

fun keys :: "json \<Rightarrow> string list" where
  "keys (JObj kvs) = map fst kvs"
| "keys _ = []"

fun field :: "string \<Rightarrow> json \<Rightarrow> json option" where
  "field k (JObj kvs) = map_of kvs k"
| "field k _ = None"

section \<open>JavaScript numbers\<close>

text \<open>
  A Number is an IEEE 754 binary64 value: NaN, an infinity, or a finite double, given
  by its rational value. The two zeros are one value here: the program never divides by
  a computed zero, \<^verbatim>\<open>-0 < 1\<close> and \<^verbatim>\<open>-0 >= 0\<close> hold as for 0, and JSON writes
  both as 0.

  \<open>double x\<close> is the rational \<open>x\<close> rounded to the nearest double, ties to the even
  significand: \<open>expo\<close> is the binary exponent \<open>\<lfloor>log\<^sub>2 x\<rfloor>\<close> of a positive
  rational, \<open>quantum\<close> the exponent of the last place (53 significant bits, and
  \<open>2\<^sup>-\<^sup>1\<^sup>0\<^sup>7\<^sup>4\<close> for the subnormal numbers), and a result of \<open>2\<^sup>1\<^sup>0\<^sup>2\<^sup>4\<close> or more
  is an infinity.
\<close>

datatype number = NaN | PosInf | NegInf | Number rat

definition expo :: "rat \<Rightarrow> int" where
  "expo x = (let (p, q) = quotient_of x; k = bitlen p - bitlen q
             in if 2 powi k \<le> x then k else k - 1)"

definition round_even :: "rat \<Rightarrow> int" where
  "round_even y = (let f = \<lfloor>y\<rfloor>; r = y - of_int f
                   in if r < 1 / 2 then f else if 1 / 2 < r then f + 1
                      else if even f then f else f + 1)"

definition quantum :: "rat \<Rightarrow> int" where
  "quantum x = max (expo \<bar>x\<bar> - 52) (- 1074)"

definition overflow :: rat where
  "overflow = 2 ^ 1024"

definition double :: "rat \<Rightarrow> number" where
  "double x = (if x = 0 then Number 0
     else let q = quantum x; r = of_int (round_even (\<bar>x\<bar> / 2 powi q)) * 2 powi q
          in if overflow \<le> r then (if 0 < x then PosInf else NegInf)
             else Number (sgn x * r))"

text \<open>A rational that is the value of a double.\<close>

definition is_double :: "rat \<Rightarrow> bool" where
  "is_double x \<longleftrightarrow> double x = Number x"

text \<open>
  The operations of the handlers: the exact result, rounded. \<open>num_minus\<close> is
  \<^verbatim>\<open>a - b\<close>, \<open>num_times\<close> is \<^verbatim>\<open>a * b\<close>, \<open>over_100\<close> is \<^verbatim>\<open>a / 100\<close>,
  \<open>num_less\<close> is \<^verbatim>\<open>a < b\<close>, and \<open>num_le\<close> is the order of the values (false
  for NaN).
\<close>

fun num_neg :: "number \<Rightarrow> number" where
  "num_neg NaN = NaN"
| "num_neg PosInf = NegInf"
| "num_neg NegInf = PosInf"
| "num_neg (Number a) = Number (- a)"

fun num_add :: "number \<Rightarrow> number \<Rightarrow> number" where
  "num_add (Number a) (Number b) = double (a + b)"
| "num_add NaN _ = NaN"
| "num_add _ NaN = NaN"
| "num_add PosInf NegInf = NaN"
| "num_add NegInf PosInf = NaN"
| "num_add PosInf _ = PosInf"
| "num_add _ PosInf = PosInf"
| "num_add NegInf _ = NegInf"
| "num_add _ NegInf = NegInf"

definition num_minus :: "number \<Rightarrow> number \<Rightarrow> number" where
  "num_minus a b = num_add a (num_neg b)"

fun num_times :: "number \<Rightarrow> number \<Rightarrow> number" where
  "num_times (Number a) (Number b) = double (a * b)"
| "num_times NaN _ = NaN"
| "num_times _ NaN = NaN"
| "num_times (Number a) PosInf = (if a = 0 then NaN else if 0 < a then PosInf else NegInf)"
| "num_times (Number a) NegInf = (if a = 0 then NaN else if 0 < a then NegInf else PosInf)"
| "num_times PosInf (Number b) = (if b = 0 then NaN else if 0 < b then PosInf else NegInf)"
| "num_times NegInf (Number b) = (if b = 0 then NaN else if 0 < b then NegInf else PosInf)"
| "num_times PosInf PosInf = PosInf"
| "num_times NegInf NegInf = PosInf"
| "num_times PosInf NegInf = NegInf"
| "num_times NegInf PosInf = NegInf"

fun over_100 :: "number \<Rightarrow> number" where
  "over_100 (Number a) = double (a / 100)"
| "over_100 n = n"

fun num_less :: "number \<Rightarrow> number \<Rightarrow> bool" where
  "num_less (Number a) (Number b) = (a < b)"
| "num_less NaN _ = False"
| "num_less _ NaN = False"
| "num_less NegInf NegInf = False"
| "num_less NegInf _ = True"
| "num_less PosInf _ = False"
| "num_less _ PosInf = True"
| "num_less _ NegInf = False"

fun num_le :: "number \<Rightarrow> number \<Rightarrow> bool" where
  "num_le (Number a) (Number b) = (a \<le> b)"
| "num_le NaN _ = False"
| "num_le _ NaN = False"
| "num_le NegInf _ = True"
| "num_le _ PosInf = True"
| "num_le _ _ = False"

text \<open>
  What a Number path of a document can hold: Mongoose refuses NaN, and a finite value
  is a double.
\<close>

fun stored :: "number \<Rightarrow> bool" where
  "stored NaN = False"
| "stored (Number a) = is_double a"
| "stored _ = True"

text \<open>\<^verbatim>\<open>JSON.stringify\<close> writes NaN and the infinities as \<^verbatim>\<open>null\<close>.\<close>

fun number_json :: "number \<Rightarrow> json" where
  "number_json (Number a) = JNum a"
| "number_json _ = JNull"

text \<open>
  A property of a request body after \<^verbatim>\<open>express.json()\<close>: absent, or a JSON value.
  A number is the decimal literal of the request, which \<^verbatim>\<open>JSON.parse\<close> rounds to
  a double. \<open>to_number\<close> is the conversion that the arithmetic operators apply and
  \<open>truthy_input\<close> the one of \<^verbatim>\<open>!\<close>; the conversions of the engine that are
  not modelled are taken from outside: the text of a Number in a template literal, the
  number a string spells, and the string an array or an object converts to.
\<close>

datatype input = Absent | INull | IBool bool | INum rat | IStr string | IObj json

record js =
  numberToString :: "number \<Rightarrow> string"
  stringToNumber :: "string \<Rightarrow> number"
  toPrimitive :: "json \<Rightarrow> string"

fun to_number :: "js \<Rightarrow> input \<Rightarrow> number" where
  "to_number e Absent = NaN"
| "to_number e INull = Number 0"
| "to_number e (IBool b) = Number (if b then 1 else 0)"
| "to_number e (INum q) = double q"
| "to_number e (IStr s) = stringToNumber e s"
| "to_number e (IObj v) = stringToNumber e (toPrimitive e v)"

fun truthy_input :: "input \<Rightarrow> bool" where
  "truthy_input Absent = False"
| "truthy_input INull = False"
| "truthy_input (IBool b) = b"
| "truthy_input (INum q) = (double q \<noteq> Number 0)"
| "truthy_input (IStr s) = (s \<noteq> [])"
| "truthy_input (IObj v) = True"

section \<open>Documents\<close>

record user =
  u_email :: string
  u_phone :: string
  u_password :: string
  u_fullName :: string
  u_location :: string
  u_gender :: string
  u_role :: string
  u_nationalId :: "string option"
  u_categories :: "string list"
  u_description :: "string option"
  u_credits :: "number option"
  u_rating :: rat
  u_totalRatings :: rat
  u_completedJobs :: rat
  u_isVerified :: bool
  u_profilePhoto :: "string option"
  u_createdAt :: nat
  u_updatedAt :: nat

record offer =
  o_id :: oid
  o_fulfiller :: oid
  o_amount :: rat
  o_message :: string
  o_status :: string
  o_createdAt :: nat

record need =
  n_user :: oid
  n_title :: string
  n_description :: string
  n_budget :: rat
  n_category :: string
  n_subcategory :: "string option"
  n_location :: string
  n_timeframe :: string
  n_status :: string
  n_photo :: "string option"
  n_contactMethods :: "string list"
  n_unlockedBy :: "oid list"
  n_offers :: "offer list"
  n_selectedFulfiller :: "oid option"
  n_isUrgent :: bool
  n_expiresAt :: nat
  n_createdAt :: nat
  n_updatedAt :: nat

record transaction =
  t_user :: oid
  t_need :: "oid option"
  t_amount :: number
  t_type :: string
  t_mpesaCode :: "string option"
  t_status :: string
  t_metadata :: "json option"
  t_createdAt :: nat
  t_completedAt :: "nat option"

text \<open>
  The database: users and needs by identifier, the ledger in insertion order.
\<close>

record db =
  users :: "oid \<rightharpoonup> user"
  needs :: "oid \<rightharpoonup> need"
  transactions :: "transaction list"

text \<open>
  What a handler answers: \<^verbatim>\<open>res.status(n).json({ error: msg })\<close>, the 400 reply of
  express-validator that lists the fields that failed, or
  \<^verbatim>\<open>res.status(n).json(body)\<close>.
\<close>

datatype reply =
    Fail nat string
  | Invalid "string list"
  | Done nat json

fun status :: "reply \<Rightarrow> nat" where
  "status (Fail n _) = n"
| "status (Invalid _) = 400"
| "status (Done n _) = n"

text \<open>
  A null read as a number is 0 (\<^verbatim>\<open>null < 1\<close>, \<^verbatim>\<open>null + x\<close>): registration
  stores \<^verbatim>\<open>credits: null\<close> for an asker.
\<close>

definition toNumber :: "number option \<Rightarrow> number" where
  "toNumber v = (case v of None \<Rightarrow> Number 0 | Some x \<Rightarrow> x)"

section \<open>Schema validation on save\<close>

definition transaction_types :: "string list" where
  "transaction_types = [''unlock'', ''credit_purchase'', ''job_completed'', ''refund'']"

definition transaction_statuses :: "string list" where
  "transaction_statuses = [''pending'', ''completed'', ''failed'', ''refunded'']"

definition validTransaction :: "transaction \<Rightarrow> bool" where
  "validTransaction t \<longleftrightarrow>
     num_le (Number 0) (t_amount t) \<and> t_type t \<in> set transaction_types \<and>
     t_status t \<in> set transaction_statuses"

definition need_categories :: "string list" where
  "need_categories = [''services'', ''products'', ''rentals'', ''pets'', ''transport'', ''other'']"

definition need_timeframes :: "string list" where
  "need_timeframes = [''asap'', ''today'', ''tomorrow'', ''week'', ''month'', ''flexible'']"

definition need_statuses :: "string list" where
  "need_statuses = [''active'', ''fulfilled'', ''expired'', ''cancelled'']"

section \<open>Unlocking a contact\<close>

text \<open>
  \<^verbatim>\<open>save()\<close> sends the paths that the handler modified to the stored document:
  the new value of \<^verbatim>\<open>credits\<close>, or the identifier pushed to \<^verbatim>\<open>unlockedBy\<close>
  (Mongoose sends a push as \<^verbatim>\<open>$push\<close>, which appends to the array as it is stored),
  with the \<^verbatim>\<open>updatedAt\<close> that the \<^verbatim>\<open>pre('save')\<close> hook stamps. It rejects
  when the value is NaN, which no Number path takes, or when the document is gone. A
  request reads the clock once (\<open>now\<close>).
\<close>

definition saveUser :: "nat \<Rightarrow> oid \<Rightarrow> number \<Rightarrow> db \<Rightarrow> db option" where
  "saveUser now uid credits d =
     (if credits = NaN then None
      else (case users d uid of
              None \<Rightarrow> None
            | Some u \<Rightarrow>
               Some (d\<lparr>users := (users d)(uid \<mapsto> u\<lparr>u_credits := Some credits,
                                                       u_updatedAt := now\<rparr>)\<rparr>)))"

definition saveNeed :: "nat \<Rightarrow> oid \<Rightarrow> oid \<Rightarrow> db \<Rightarrow> db option" where
  "saveNeed now nid uid d =
     (case needs d nid of
        None \<Rightarrow> None
      | Some n \<Rightarrow>
         Some (d\<lparr>needs := (needs d)(nid \<mapsto> n\<lparr>n_unlockedBy := n_unlockedBy n @ [uid],
                                                 n_updatedAt := now\<rparr>)\<rparr>))"

definition saveTransaction :: "transaction \<Rightarrow> db \<Rightarrow> db option" where
  "saveTransaction t d =
     (if validTransaction t then Some (d\<lparr>transactions := transactions d @ [t]\<rparr>) else None)"

definition unlockTransaction :: "nat \<Rightarrow> oid \<Rightarrow> oid \<Rightarrow> transaction" where
  "unlockTransaction now userId needId =
     \<lparr>t_user = userId, t_need = Some needId, t_amount = Number 100, t_type = ''unlock'',
      t_mpesaCode = None, t_status = ''completed'', t_metadata = None,
      t_createdAt = now, t_completedAt = None\<rparr>"

definition contactInfo :: "user \<Rightarrow> json" where
  "contactInfo asker =
     JObj [(''fullName'', JStr (u_fullName asker)),
           (''phone'', JStr (u_phone asker)),
           (''email'', JStr (u_email asker)),
           (''location'', JStr (u_location asker)),
           (''rating'', JNum (u_rating asker))]"

text \<open>
  \<^verbatim>\<open>app.post('/api/needs/:id/unlock')\<close>, after \<^verbatim>\<open>authenticateToken\<close> has put the
  token's \<open>userId\<close> on the request. The handler has two parts, and other requests
  are served between them, at the \<^verbatim>\<open>await\<close> of the first save.

  \<open>unlockCheck\<close> is the first part: the two reads, the three checks, and the change
  of the two documents in the handler's memory. The \<^verbatim>\<open>:id\<close> segment of the path is
  \<open>None\<close> when it does not spell an ObjectId: \<^verbatim>\<open>findById\<close> then throws a
  CastError. A user that \<^verbatim>\<open>findById\<close> does not find is \<^verbatim>\<open>null\<close>, reading a
  property of it throws, and the handler's \<^verbatim>\<open>catch\<close> answers 500. What the part
  leaves for the second is the need, the caller, the caller's credits less 1 and the
  owner of the need.
\<close>

record unlocking =
  l_needId :: oid
  l_userId :: oid
  l_credits :: number
  l_owner :: oid

definition unlockCheck :: "db \<Rightarrow> oid option \<Rightarrow> oid \<Rightarrow> reply + unlocking" where
  "unlockCheck d idParam userId =
     (case idParam of
        None \<Rightarrow> Inl (Fail 500 ''Failed to unlock need'')
      | Some needId \<Rightarrow>
         (case needs d needId of
            None \<Rightarrow> Inl (Fail 404 ''Need not found'')
          | Some need \<Rightarrow>
             (case users d userId of
                None \<Rightarrow> Inl (Fail 500 ''Failed to unlock need'')
              | Some user \<Rightarrow>
                 if u_role user \<noteq> ''fulfiller'' then
                   Inl (Fail 403 ''Only fulfillers can unlock needs'')
                 else if userId \<in> set (n_unlockedBy need) then
                   Inl (Fail 400 ''Already unlocked this need'')
                 else if num_less (toNumber (u_credits user)) (Number 1) then
                   Inl (Fail 400 ''Insufficient credits. Please add credits first.'')
                 else
                   Inr \<lparr>l_needId = needId, l_userId = userId,
                        l_credits = num_minus (toNumber (u_credits user)) (Number 1),
                        l_owner = n_user need\<rparr>)))"

text \<open>
  \<open>unlockWrite\<close> is the second part: the save of the user, the save of the need,
  the ledger entry, the read of the owner and the reply. A save that rejects, or an
  owner that is not found, ends in the handler's \<^verbatim>\<open>catch\<close> with what was saved
  before it left in place.
\<close>

definition unlockWrite :: "nat \<Rightarrow> unlocking \<Rightarrow> db \<Rightarrow> reply \<times> db" where
  "unlockWrite now p d =
     (case saveUser now (l_userId p) (l_credits p) d of
        None \<Rightarrow> (Fail 500 ''Failed to unlock need'', d)
      | Some d1 \<Rightarrow>
         (case saveNeed now (l_needId p) (l_userId p) d1 of
            None \<Rightarrow> (Fail 500 ''Failed to unlock need'', d1)
          | Some d2 \<Rightarrow>
             (case saveTransaction (unlockTransaction now (l_userId p) (l_needId p)) d2 of
                None \<Rightarrow> (Fail 500 ''Failed to unlock need'', d2)
              | Some d3 \<Rightarrow>
                 (case users d3 (l_owner p) of
                    None \<Rightarrow> (Fail 500 ''Failed to unlock need'', d3)
                  | Some asker \<Rightarrow>
                     (Done 200
                        (JObj [(''success'', JBool True),
                               (''message'', JStr ''Need unlocked successfully''),
                               (''contactInfo'', contactInfo asker)]),
                      d3)))))"

text \<open>A request that is served with no other request between its two parts.\<close>

definition unlock :: "nat \<Rightarrow> db \<Rightarrow> oid option \<Rightarrow> oid \<Rightarrow> reply \<times> db" where
  "unlock now d idParam userId =
     (case unlockCheck d idParam userId of
        Inl r \<Rightarrow> (r, d)
      | Inr p \<Rightarrow> unlockWrite now p d)"

text \<open>The error names of the specification, as the replies of the handler.\<close>

definition NotFound :: reply where
  "NotFound = Fail 404 ''Need not found''"

definition Forbidden :: reply where
  "Forbidden = Fail 403 ''Only fulfillers can unlock needs''"

definition AlreadyUnlocked :: reply where
  "AlreadyUnlocked = Fail 400 ''Already unlocked this need''"

definition InsufficientCredits :: reply where
  "InsufficientCredits = Fail 400 ''Insufficient credits. Please add credits first.''"

section \<open>Buying credits\<close>

text \<open>
  \<^verbatim>\<open>app.post('/api/credits/add')\<close>. A code that is falsy, or a string without the
  prefix, is answered 400; a code that is truthy and no string has no
  \<^verbatim>\<open>startsWith\<close>, and the call throws. The credits are
  \<^verbatim>\<open>user.credits + amount / 100\<close> in double arithmetic, with the conversions of
  JavaScript for an amount that is no number. The user is saved before the ledger entry
  is validated: an entry that the transaction schema refuses leaves the new balance in
  place.
\<close>

definition startsWith :: "string \<Rightarrow> string \<Rightarrow> bool" where
  "startsWith s p \<longleftrightarrow> take (length p) s = p"

text \<open>
  The amount as the transaction schema casts it (\<^verbatim>\<open>type: Number, required: true\<close>):
  no value for an absent amount, for \<^verbatim>\<open>null\<close> and for the empty string, which fail
  \<^verbatim>\<open>required\<close>, nor for a string that spells no number, an array or an object,
  which fail the cast.
\<close>

fun castAmount :: "js \<Rightarrow> input \<Rightarrow> number option" where
  "castAmount e Absent = None"
| "castAmount e INull = None"
| "castAmount e (IBool b) = Some (Number (if b then 1 else 0))"
| "castAmount e (INum q) = Some (double q)"
| "castAmount e (IStr s) =
     (if s = [] then None
      else (case stringToNumber e s of NaN \<Rightarrow> None | n \<Rightarrow> Some n))"
| "castAmount e (IObj v) = None"

definition purchaseTransaction :: "nat \<Rightarrow> oid \<Rightarrow> number \<Rightarrow> string \<Rightarrow> transaction" where
  "purchaseTransaction now userId amount mpesaCode =
     \<lparr>t_user = userId, t_need = None, t_amount = amount, t_type = ''credit_purchase'',
      t_mpesaCode = Some mpesaCode, t_status = ''completed'', t_metadata = None,
      t_createdAt = now, t_completedAt = None\<rparr>"

definition addCredits ::
  "js \<Rightarrow> nat \<Rightarrow> db \<Rightarrow> oid \<Rightarrow> input \<Rightarrow> input \<Rightarrow> reply \<times> db" where
  "addCredits e now d userId amount mpesaCode =
     (if \<not> truthy_input mpesaCode then (Fail 400 ''Invalid M-Pesa code'', d)
      else
        (case mpesaCode of
           IStr code \<Rightarrow>
             if \<not> startsWith code ''MPS'' then (Fail 400 ''Invalid M-Pesa code'', d)
             else
               (case users d userId of
                  None \<Rightarrow> (Fail 500 ''Failed to add credits'', d)
                | Some user \<Rightarrow>
                   let credits = over_100 (to_number e amount);
                       balance' = num_add (toNumber (u_credits user)) credits
                   in (case saveUser now userId balance' d of
                         None \<Rightarrow> (Fail 500 ''Failed to add credits'', d)
                       | Some d1 \<Rightarrow>
                          (case castAmount e amount of
                             None \<Rightarrow> (Fail 500 ''Failed to add credits'', d1)
                           | Some a \<Rightarrow>
                              (case saveTransaction (purchaseTransaction now userId a code) d1 of
                                 None \<Rightarrow> (Fail 500 ''Failed to add credits'', d1)
                               | Some d2 \<Rightarrow>
                                  (Done 200
                                     (JObj [(''success'', JBool True),
                                            (''message'',
                                               JStr (''Added '' @ numberToString e credits @
                                                     '' credits to your account'')),
                                            (''credits'', number_json balance')]),
                                   d2)))))
         | _ \<Rightarrow> (Fail 500 ''Failed to add credits'', d)))"

text \<open>The balance the handlers compute with.\<close>

definition balance :: "db \<Rightarrow> oid \<Rightarrow> number" where
  "balance d uid = (case users d uid of None \<Rightarrow> Number 0 | Some u \<Rightarrow> toNumber (u_credits u))"

section \<open>Posting a need\<close>

text \<open>
  The request body after \<^verbatim>\<open>express.json()\<close>: a text field that is absent is the
  empty string (what the validators see), \<open>b_budget\<close> is \<open>None\<close> when the budget
  is absent or fails \<^verbatim>\<open>isNumeric()\<close>, and the number it spells otherwise.
\<close>

record need_body =
  b_title :: string
  b_description :: string
  b_budget :: "rat option"
  b_category :: string
  b_location :: string
  b_timeframe :: "string option"
  b_photo :: "string option"

text \<open>
  The string functions of the libraries: the \<^verbatim>\<open>trim()\<close> and \<^verbatim>\<open>escape()\<close>
  sanitizers of express-validator, and the trimming of a schema path declared
  \<^verbatim>\<open>trim: true\<close>.
\<close>

record sanitizers =
  trim :: "string \<Rightarrow> string"
  escape :: "string \<Rightarrow> string"
  schemaTrim :: "string \<Rightarrow> string"

text \<open>
  The validation chains in their order; each one that fails contributes its field.
  \<^verbatim>\<open>notEmpty()\<close> runs before the sanitizers of its chain.
\<close>

definition validationResult :: "need_body \<Rightarrow> string list" where
  "validationResult b =
     (if b_title b = [] then [''title''] else []) @
     (if b_description b = [] then [''description''] else []) @
     (if b_budget b = None then [''budget''] else []) @
     (if b_category b = [] then [''category''] else []) @
     (if b_location b = [] then [''location''] else [])"

text \<open>
  What \<^verbatim>\<open>need.save()\<close> validates against \<^verbatim>\<open>needSchema\<close>: the required strings
  are not empty, the budget is at least 0, and category, timeframe, status and the
  contact methods are in their enumerations.
\<close>

definition validNeed :: "need \<Rightarrow> bool" where
  "validNeed n \<longleftrightarrow>
     n_title n \<noteq> [] \<and> n_description n \<noteq> [] \<and> 0 \<le> n_budget n \<and>
     n_category n \<in> set need_categories \<and> n_location n \<noteq> [] \<and>
     n_timeframe n \<in> set need_timeframes \<and> n_status n \<in> set need_statuses \<and>
     list_all (\<lambda>m. m \<in> set [''whatsapp'', ''sms'', ''call'', ''email'']) (n_contactMethods n)"

definition newNeed :: "sanitizers \<Rightarrow> nat \<Rightarrow> oid \<Rightarrow> need_body \<Rightarrow> rat \<Rightarrow> need" where
  "newNeed lib now userId b budget =
     \<lparr>n_user = userId,
      n_title = schemaTrim lib (escape lib (trim lib (b_title b))),
      n_description = schemaTrim lib (escape lib (trim lib (b_description b))),
      n_budget = budget,
      n_category = b_category b,
      n_subcategory = None,
      n_location = b_location b,
      n_timeframe = (case b_timeframe b of None \<Rightarrow> ''flexible'' | Some t \<Rightarrow> t),
      n_status = ''active'',
      n_photo = b_photo b,
      n_contactMethods = [],
      n_unlockedBy = [],
      n_offers = [],
      n_selectedFulfiller = None,
      n_isUrgent = False,
      n_expiresAt = now + 30 * 24 * 60 * 60 * 1000,
      n_createdAt = now,
      n_updatedAt = now\<rparr>"

text \<open>
  \<^verbatim>\<open>app.post('/api/needs')\<close>. \<open>newId\<close> is the ObjectId the driver generates for
  the document; the collection refuses a second document under an identifier it has.
  A need that the schema refuses makes \<^verbatim>\<open>need.save()\<close> reject, and the handler's
  \<^verbatim>\<open>catch\<close> answers 500.
\<close>

definition postNeed ::
  "sanitizers \<Rightarrow> nat \<Rightarrow> db \<Rightarrow> oid \<Rightarrow> oid \<Rightarrow> need_body \<Rightarrow> reply \<times> db" where
  "postNeed lib now d userId newId b =
     (case b_budget b of
        None \<Rightarrow> (Invalid (validationResult b), d)
      | Some budget \<Rightarrow>
         if validationResult b \<noteq> [] then (Invalid (validationResult b), d)
         else
           (case users d userId of
              None \<Rightarrow> (Fail 500 ''Failed to post need'', d)
            | Some user \<Rightarrow>
               if u_role user \<noteq> ''asker'' then (Fail 403 ''Only askers can post needs'', d)
               else
                 let need = newNeed lib now userId b budget in
                 if \<not> validNeed need \<or> needs d newId \<noteq> None then
                   (Fail 500 ''Failed to post need'', d)
                 else
                   (Done 201
                      (JObj [(''success'', JBool True),
                             (''need'',
                                JObj [(''id'', JId newId),
                                      (''title'', JStr (n_title need)),
                                      (''description'', JStr (n_description need)),
                                      (''budget'', JNum (n_budget need)),
                                      (''category'', JStr (n_category need)),
                                      (''location'', JStr (n_location need)),
                                      (''status'', JStr (n_status need)),
                                      (''createdAt'', JDate (n_createdAt need))])]),
                    d\<lparr>needs := (needs d)(newId \<mapsto> need)\<rparr>)))"

section \<open>Browsing needs\<close>

text \<open>
  A document as \<^verbatim>\<open>res.json\<close> serialises it: the paths the document has, under
  their names. \<open>opt\<close> leaves out a path that is absent. The version key that
  Mongoose maintains on a document is left out.
\<close>

definition opt :: "string \<Rightarrow> json option \<Rightarrow> (string \<times> json) list" where
  "opt k v = (case v of None \<Rightarrow> [] | Some j \<Rightarrow> [(k, j)])"

definition user_json :: "oid \<Rightarrow> user \<Rightarrow> (string \<times> json) list" where
  "user_json uid u =
     [(''_id'', JId uid),
      (''email'', JStr (u_email u)),
      (''phone'', JStr (u_phone u)),
      (''password'', JStr (u_password u)),
      (''fullName'', JStr (u_fullName u)),
      (''location'', JStr (u_location u)),
      (''gender'', JStr (u_gender u)),
      (''role'', JStr (u_role u))] @
     opt ''nationalId'' (map_option JStr (u_nationalId u)) @
     [(''categories'', JArr (map JStr (u_categories u)))] @
     opt ''description'' (map_option JStr (u_description u)) @
     [(''credits'', (case u_credits u of None \<Rightarrow> JNull | Some c \<Rightarrow> number_json c)),
      (''rating'', JNum (u_rating u)),
      (''totalRatings'', JNum (u_totalRatings u)),
      (''completedJobs'', JNum (u_completedJobs u)),
      (''isVerified'', JBool (u_isVerified u))] @
     opt ''profilePhoto'' (map_option JStr (u_profilePhoto u)) @
     [(''createdAt'', JDate (u_createdAt u)),
      (''updatedAt'', JDate (u_updatedAt u))]"

text \<open>
  \<^verbatim>\<open>select\<close> with a list of paths to include keeps those paths and \<^verbatim>\<open>_id\<close>.
  \<^verbatim>\<open>populate('user', paths)\<close> replaces the owner's identifier by the selected
  paths of the owner's document, or by \<^verbatim>\<open>null\<close> when there is no such user.
\<close>

definition select :: "string list \<Rightarrow> (string \<times> json) list \<Rightarrow> (string \<times> json) list" where
  "select paths doc = filter (\<lambda>kv. fst kv = ''_id'' \<or> fst kv \<in> set paths) doc"

definition populate :: "db \<Rightarrow> string list \<Rightarrow> oid \<Rightarrow> json" where
  "populate d paths uid =
     (case users d uid of None \<Rightarrow> JNull | Some u \<Rightarrow> JObj (select paths (user_json uid u)))"

definition offer_json :: "offer \<Rightarrow> json" where
  "offer_json f =
     JObj [(''fulfiller'', JId (o_fulfiller f)),
           (''amount'', JNum (o_amount f)),
           (''message'', JStr (o_message f)),
           (''status'', JStr (o_status f)),
           (''_id'', JId (o_id f)),
           (''createdAt'', JDate (o_createdAt f))]"

definition need_json :: "json \<Rightarrow> oid \<Rightarrow> need \<Rightarrow> json" where
  "need_json owner nid n =
     JObj ([(''_id'', JId nid),
            (''user'', owner),
            (''title'', JStr (n_title n)),
            (''description'', JStr (n_description n)),
            (''budget'', JNum (n_budget n)),
            (''category'', JStr (n_category n))] @
           opt ''subcategory'' (map_option JStr (n_subcategory n)) @
           [(''location'', JStr (n_location n)),
            (''timeframe'', JStr (n_timeframe n)),
            (''status'', JStr (n_status n))] @
           opt ''photo'' (map_option JStr (n_photo n)) @
           [(''contactMethods'', JArr (map JStr (n_contactMethods n))),
            (''unlockedBy'', JArr (map JId (n_unlockedBy n))),
            (''offers'', JArr (map offer_json (n_offers n)))] @
           opt ''selectedFulfiller'' (map_option JId (n_selectedFulfiller n)) @
           [(''isUrgent'', JBool (n_isUrgent n)),
            (''expiresAt'', JDate (n_expiresAt n)),
            (''createdAt'', JDate (n_createdAt n)),
            (''updatedAt'', JDate (n_updatedAt n))])"

text \<open>
  The query string of \<^verbatim>\<open>GET /api/needs\<close>: each parameter is a string or absent.
  \<^verbatim>\<open>parseInt\<close> and \<^verbatim>\<open>parseFloat\<close> give a Number.
\<close>

record needs_query =
  q_category :: "string option"
  q_location :: "string option"
  q_minBudget :: "string option"
  q_maxBudget :: "string option"
  q_sort :: "string option"
  q_page :: "string option"
  q_limit :: "string option"

text \<open>
  \<^verbatim>\<open>Math.ceil(total / limit)\<close>, serialised: the quotient is NaN or infinite for a
  limit of 0 and a zero for an infinite limit. \<open>cnt\<close> is the count the collection
  returned.
\<close>

fun pages_json :: "nat \<Rightarrow> number \<Rightarrow> json" where
  "pages_json cnt NaN = JNull"
| "pages_json cnt PosInf = JNum 0"
| "pages_json cnt NegInf = JNum 0"
| "pages_json cnt (Number l) =
     (if l = 0 then JNull
      else (case double (of_nat cnt / l) of
              Number r \<Rightarrow> JNum (of_int \<lceil>r\<rceil>)
            | _ \<Rightarrow> JNull))"

text \<open>A string is truthy when it is present and not empty.\<close>

definition truthy :: "string option \<Rightarrow> bool" where
  "truthy v \<longleftrightarrow> (case v of None \<Rightarrow> False | Some s \<Rightarrow> s \<noteq> [])"

text \<open>The filter document handed to the collection.\<close>

record budget_cond =
  gte :: "number option"
  lte :: "number option"

record need_filter =
  f_status :: string
  f_category :: "string option"
  f_location :: "string option"
  f_budget :: "budget_cond option"

text \<open>
  What the handler takes from outside the repository: the two parsers of JavaScript,
  and the collection's \<^verbatim>\<open>find\<close> (with its sort keys, skip and limit) and
  \<^verbatim>\<open>countDocuments\<close>, which give \<open>None\<close> when the driver or the server refuses
  the query.
\<close>

record engine =
  e_parseInt :: "string \<Rightarrow> number"
  e_parseFloat :: "string \<Rightarrow> number"
  e_find :: "need_filter \<Rightarrow> (string \<times> int) list \<Rightarrow> number \<Rightarrow> number \<Rightarrow>
           (oid \<rightharpoonup> need) \<Rightarrow> (oid \<times> need) list option"
  e_countDocuments :: "need_filter \<Rightarrow> (oid \<rightharpoonup> need) \<Rightarrow> nat option"

definition buildQuery :: "engine \<Rightarrow> needs_query \<Rightarrow> need_filter" where
  "buildQuery e q =
     \<lparr>f_status = ''active'',
      f_category = (if truthy (q_category q) then q_category q else None),
      f_location = (if truthy (q_location q) then q_location q else None),
      f_budget =
        (if truthy (q_minBudget q) \<or> truthy (q_maxBudget q) then
           Some \<lparr>gte = (if truthy (q_minBudget q)
                         then map_option (e_parseFloat e) (q_minBudget q) else None),
                 lte = (if truthy (q_maxBudget q)
                         then map_option (e_parseFloat e) (q_maxBudget q) else None)\<rparr>
         else None)\<rparr>"

definition sortOption :: "string option \<Rightarrow> (string \<times> int) list" where
  "sortOption key =
     (let s = (case key of None \<Rightarrow> ''newest'' | Some x \<Rightarrow> x) in
      if s = ''budget_high'' then [(''budget'', - 1)]
      else if s = ''budget_low'' then [(''budget'', 1)]
      else if s = ''urgent'' then [(''timeframe'', 1), (''createdAt'', - 1)]
      else [(''createdAt'', - 1)])"

definition pageNumber :: "engine \<Rightarrow> needs_query \<Rightarrow> number" where
  "pageNumber e q = (case q_page q of None \<Rightarrow> Number 1 | Some s \<Rightarrow> e_parseInt e s)"

definition limitNumber :: "engine \<Rightarrow> needs_query \<Rightarrow> number" where
  "limitNumber e q = (case q_limit q of None \<Rightarrow> Number 10 | Some s \<Rightarrow> e_parseInt e s)"

text \<open>\<^verbatim>\<open>app.get('/api/needs')\<close>.\<close>

definition listNeeds :: "engine \<Rightarrow> db \<Rightarrow> needs_query \<Rightarrow> reply \<times> db" where
  "listNeeds e d q =
     (let query = buildQuery e q;
          page = pageNumber e q;
          limit = limitNumber e q;
          skip = num_times (num_minus page (Number 1)) limit
      in case e_find e query (sortOption (q_sort q)) skip limit (needs d) of
           None \<Rightarrow> (Fail 500 ''Failed to fetch needs'', d)
         | Some found \<Rightarrow>
            (case e_countDocuments e query (needs d) of
               None \<Rightarrow> (Fail 500 ''Failed to fetch needs'', d)
             | Some cnt \<Rightarrow>
                (Done 200
                   (JObj [(''success'', JBool True),
                          (''needs'',
                             JArr (map (\<lambda>(nid, n).
                                need_json (populate d [''fullName'', ''location'', ''rating''] (n_user n))
                                  nid n) found)),
                          (''pagination'',
                             JObj [(''total'', JNum (of_nat cnt)),
                                   (''page'', number_json page),
                                   (''pages'', pages_json cnt limit),
                                   (''limit'', number_json limit)])]),
                 d)))"

text \<open>\<^verbatim>\<open>app.get('/api/needs/:id')\<close>.\<close>

definition getNeed :: "db \<Rightarrow> oid option \<Rightarrow> reply \<times> db" where
  "getNeed d idParam =
     (case idParam of
        None \<Rightarrow> (Fail 500 ''Failed to fetch need'', d)
      | Some needId \<Rightarrow>
         (case needs d needId of
            None \<Rightarrow> (Fail 404 ''Need not found'', d)
          | Some n \<Rightarrow>
             (Done 200
                (JObj [(''success'', JBool True),
                       (''need'',
                          need_json
                            (populate d [''fullName'', ''location'', ''rating'', ''createdAt''] (n_user n))
                            needId n)]),
              d)))"

text \<open>
  The body of a reply. An entry of the 400 reply of express-validator is reduced to its
  path: its message, its location and the value it repeats from the request are left
  out.
\<close>

fun body :: "reply \<Rightarrow> json" where
  "body (Fail n msg) = JObj [(''error'', JStr msg)]"
| "body (Invalid fs) = JObj [(''errors'', JArr (map (\<lambda>f. JObj [(''path'', JStr f)]) fs))]"
| "body (Done n j) = j"

section \<open>The offline queue of the service worker\<close>

text \<open>
  The object store \<^verbatim>\<open>needs\<close> of the IndexedDB database \<^verbatim>\<open>fulfillme-offline\<close>,
  as \<^verbatim>\<open>getAll()\<close> lists it; an entry is a need as the client stored it, under its
  key \<^verbatim>\<open>id\<close>. The promise of \<^verbatim>\<open>fetch\<close> resolves with the server's response,
  whatever its status, and rejects only when the request itself fails.
\<close>

record queued =
  qn_id :: nat
  qn_fields :: json

datatype fetched = Resolved nat | Rejected

definition getOfflineNeeds :: "queued list \<Rightarrow> queued list" where
  "getOfflineNeeds store = store"

definition removeOfflineNeed :: "nat \<Rightarrow> queued list \<Rightarrow> queued list" where
  "removeOfflineNeed k store = filter (\<lambda>e. qn_id e \<noteq> k) store"

text \<open>
  The \<^verbatim>\<open>for ... of\<close> loop of \<^verbatim>\<open>syncNeeds\<close> over the entries read at the start.
  The result is the list of the entries posted, in the order of the requests, and the
  store after the pass.
\<close>

fun syncLoop :: "(queued \<Rightarrow> fetched) \<Rightarrow> queued list \<Rightarrow> queued list \<Rightarrow> queued list \<times> queued list" where
  "syncLoop fetch [] store = ([], store)"
| "syncLoop fetch (need # rest) store =
     (case fetch need of
        Resolved _ \<Rightarrow>
          (let (posted, store') = syncLoop fetch rest (removeOfflineNeed (qn_id need) store)
           in (need # posted, store'))
      | Rejected \<Rightarrow>
          (let (posted, store') = syncLoop fetch rest store
           in (need # posted, store')))"

definition syncNeeds :: "(queued \<Rightarrow> fetched) \<Rightarrow> queued list \<Rightarrow> queued list \<times> queued list" where
  "syncNeeds fetch store = syncLoop fetch (getOfflineNeeds store) store"

section \<open>Reachable states\<close>

text \<open>
  The states the server reaches from the empty database, with the unlock requests that
  have passed their checks and wait for their saves. A request for a need, for credits
  or for the list is served in one step; an unlock is served in its two parts, and any
  request may be served between them. Registration
  (\<^verbatim>\<open>app.post('/api/auth/register')\<close>) inserts a user document under a new
  identifier, with a role that is asker or fulfiller and with
  \<^verbatim>\<open>credits: role === 'fulfiller' ? 0 : null\<close>; its other paths are not
  constrained here. The index on \<^verbatim>\<open>expiresAt\<close> lets the store delete a need.
\<close>

definition registered :: "user \<Rightarrow> bool" where
  "registered u \<longleftrightarrow>
     (u_role u = ''asker'' \<or> u_role u = ''fulfiller'') \<and>
     u_credits u = (if u_role u = ''fulfiller'' then Some (Number 0) else None)"

inductive reachable :: "db \<Rightarrow> unlocking list \<Rightarrow> bool" where
  init: "reachable \<lparr>users = Map.empty, needs = Map.empty, transactions = []\<rparr> []"
| register: "reachable d ps \<Longrightarrow> users d uid = None \<Longrightarrow> registered u \<Longrightarrow>
     reachable (d\<lparr>users := (users d)(uid \<mapsto> u)\<rparr>) ps"
| post: "reachable d ps \<Longrightarrow> reachable (snd (postNeed lib now d userId newId b)) ps"
| credited: "reachable d ps \<Longrightarrow>
     reachable (snd (addCredits e now d userId amount mpesaCode)) ps"
| expired: "reachable d ps \<Longrightarrow> reachable (d\<lparr>needs := (needs d)(nid := None)\<rparr>) ps"
| checked: "reachable d ps \<Longrightarrow> unlockCheck d idParam userId = Inr p \<Longrightarrow>
     reachable d (p # ps)"
| written: "reachable d ps \<Longrightarrow> p \<in> set ps \<Longrightarrow>
     reachable (snd (unlockWrite now p d)) (remove1 p ps)"

text \<open>The states reached when every request is served before the next one starts.\<close>

inductive sequential :: "db \<Rightarrow> bool" where
  s_init: "sequential \<lparr>users = Map.empty, needs = Map.empty, transactions = []\<rparr>"
| s_register: "sequential d \<Longrightarrow> users d uid = None \<Longrightarrow> registered u \<Longrightarrow>
     sequential (d\<lparr>users := (users d)(uid \<mapsto> u)\<rparr>)"
| s_post: "sequential d \<Longrightarrow> sequential (snd (postNeed lib now d userId newId b))"
| s_unlocked: "sequential d \<Longrightarrow> sequential (snd (unlock now d idParam userId))"
| s_credited: "sequential d \<Longrightarrow>
     sequential (snd (addCredits e now d userId amount mpesaCode))"
| s_expired: "sequential d \<Longrightarrow> sequential (d\<lparr>needs := (needs d)(nid := None)\<rparr>)"

text \<open>No identifier occurs twice in the \<^verbatim>\<open>unlockedBy\<close> of a need.\<close>

definition unlockedOnce :: "db \<Rightarrow> bool" where
  "unlockedOnce d \<longleftrightarrow> (\<forall>nid n. needs d nid = Some n \<longrightarrow> distinct (n_unlockedBy n))"

section \<open>An example database\<close>

text \<open>
  The scenario of the specification: an asker without credits who owns a need with a
  budget of 1000 in the category services, and a fulfiller with one credit.
\<close>

definition asker0 :: user where
  "asker0 =
     \<lparr>u_email = ''asker@example.com'', u_phone = ''+254700000001'', u_password = ''$2a$10$hash'',
      u_fullName = ''Amina'', u_location = ''Nairobi'', u_gender = ''female'', u_role = ''asker'',
      u_nationalId = None, u_categories = [], u_description = None, u_credits = None,
      u_rating = 5, u_totalRatings = 0, u_completedJobs = 0, u_isVerified = False,
      u_profilePhoto = None, u_createdAt = 1, u_updatedAt = 1\<rparr>"

definition fulfiller0 :: user where
  "fulfiller0 =
     \<lparr>u_email = ''fundi@example.com'', u_phone = ''+254700000002'', u_password = ''$2a$10$other'',
      u_fullName = ''Baraka'', u_location = ''Kisumu'', u_gender = ''male'', u_role = ''fulfiller'',
      u_nationalId = None, u_categories = [], u_description = None,
      u_credits = Some (Number 1),
      u_rating = 5, u_totalRatings = 0, u_completedJobs = 0, u_isVerified = False,
      u_profilePhoto = None, u_createdAt = 2, u_updatedAt = 2\<rparr>"

definition need0 :: need where
  "need0 =
     \<lparr>n_user = 1, n_title = ''Plumber'', n_description = ''Fix a tap'', n_budget = 1000,
      n_category = ''services'', n_subcategory = None, n_location = ''Nairobi'',
      n_timeframe = ''flexible'', n_status = ''active'', n_photo = None, n_contactMethods = [],
      n_unlockedBy = [], n_offers = [], n_selectedFulfiller = None, n_isUrgent = False,
      n_expiresAt = 2592000003, n_createdAt = 3, n_updatedAt = 3\<rparr>"

definition db0 :: db where
  "db0 = \<lparr>users = [1 \<mapsto> asker0, 2 \<mapsto> fulfiller0], needs = [10 \<mapsto> need0], transactions = []\<rparr>"

text \<open>The same database with other credits for the fulfiller.\<close>

definition db_with :: "number \<Rightarrow> db" where
  "db_with c = db0\<lparr>users := [1 \<mapsto> asker0, 2 \<mapsto> fulfiller0\<lparr>u_credits := Some c\<rparr>]\<rparr>"

text \<open>
  The unlock of the need 10 by the fulfiller 2, after its checks with one credit on the
  account.
\<close>

definition unlocking0 :: unlocking where
  "unlocking0 = \<lparr>l_needId = 10, l_userId = 2, l_credits = Number 0, l_owner = 1\<rparr>"

definition body0 :: need_body where
  "body0 =
     \<lparr>b_title = ''Plumber'', b_description = ''Fix a tap'', b_budget = Some 1000,
      b_category = ''services'', b_location = ''Nairobi'', b_timeframe = None, b_photo = None\<rparr>"

definition lib0 :: sanitizers where
  "lib0 = \<lparr>trim = (\<lambda>s. s), escape = (\<lambda>s. s), schemaTrim = (\<lambda>s. s)\<rparr>"

text \<open>
  A collection that holds the need 10 alone and answers every query with it, parsers
  and conversions that read nothing, and a queue of two entries.
\<close>

definition engine0 :: engine where
  "engine0 =
     \<lparr>e_parseInt = (\<lambda>s. NaN),
      e_parseFloat = (\<lambda>s. NaN),
      e_find = (\<lambda>flt srt skip limit store.
                  Some (case store 10 of None \<Rightarrow> [] | Some n \<Rightarrow> [(10, n)])),
      e_countDocuments = (\<lambda>flt store. Some 1)\<rparr>"

definition js0 :: js where
  "js0 = \<lparr>numberToString = (\<lambda>n. ''?''), stringToNumber = (\<lambda>s. NaN), toPrimitive = (\<lambda>v. [])\<rparr>"

text \<open>
  The database after the two registrations and the posting of the need, where the
  fulfiller has the 0 credits of a registration, and after the fulfiller's first purchase
  with the amount \<open>a\<close>.
\<close>

definition db_bought :: "rat \<Rightarrow> db" where
  "db_bought a = snd (addCredits js0 5 (db_with (Number 0)) 2 (INum a) (IStr ''MPS123''))"

definition query0 :: needs_query where
  "query0 =
     \<lparr>q_category = None, q_location = None, q_minBudget = None, q_maxBudget = None,
      q_sort = None, q_page = None, q_limit = None\<rparr>"

definition queued1 :: queued where
  "queued1 = \<lparr>qn_id = 1, qn_fields = JObj [(''title'', JStr ''Plumber'')]\<rparr>"

definition queued2 :: queued where
  "queued2 = \<lparr>qn_id = 2, qn_fields = JObj [(''title'', JStr ''Painter'')]\<rparr>"


section \<open>Rounding to a double\<close>

lemma two_powi_int: "0 \<le> n \<Longrightarrow> (2::rat) powi n = of_int (2 ^ nat n)"
  by (simp add: power_int_def)

lemma expo_bounds:
  assumes "0 < x"
  shows "2 powi (expo x) \<le> x \<and> x < 2 powi (expo x + 1)"
proof -
  obtain p q where pq: "quotient_of x = (p, q)" by (cases "quotient_of x")
  have q: "0 < q" using pq quotient_of_denom_pos by blast
  have x: "x = of_int p / of_int q" using pq by (rule quotient_of_div)
  have p: "0 < p" using assms q x by (simp add: zero_less_divide_iff)
  define bp where "bp = bitlen p"
  define bq where "bq = bitlen q"
  have bp1: "1 \<le> bp" using p by (simp add: bp_def bitlen_alt_def)
  have bq1: "1 \<le> bq" using q by (simp add: bq_def bitlen_alt_def)
  from bitlen_bounds [OF p] have pb: "2 ^ nat (bp - 1) \<le> p" "p < 2 ^ nat bp"
    by (simp_all add: bp_def)
  from bitlen_bounds [OF q] have qb: "2 ^ nat (bq - 1) \<le> q" "q < 2 ^ nat bq"
    by (simp_all add: bq_def)
  have P1: "(2::rat) powi (bp - 1) \<le> of_int p"
    using pb(1) bp1 by (simp add: two_powi_int of_int_le_iff del: of_int_power)
  have P2: "of_int p < (2::rat) powi bp"
    using pb(2) bp1 by (simp add: two_powi_int of_int_less_iff del: of_int_power)
  have Q1: "(2::rat) powi (bq - 1) \<le> of_int q"
    using qb(1) bq1 by (simp add: two_powi_int of_int_le_iff del: of_int_power)
  have Q2: "of_int q < (2::rat) powi bq"
    using qb(2) bq1 by (simp add: two_powi_int of_int_less_iff del: of_int_power)
  have qpos: "(0::rat) < of_int q" using q by simp
  have up: "x < 2 powi (bp - bq + 1)"
  proof -
    have "of_int p < (2::rat) powi bp" by (rule P2)
    also have "\<dots> = 2 powi (bp - bq + 1) * 2 powi (bq - 1)"
      by (simp flip: power_int_add)
    also have "\<dots> \<le> 2 powi (bp - bq + 1) * of_int q"
      using Q1 by (intro mult_left_mono) simp_all
    finally show ?thesis
      using qpos by (simp add: x pos_divide_less_eq)
  qed
  have lo: "2 powi (bp - bq - 1) < x"
  proof -
    have "2 powi (bp - bq - 1) * of_int q < (2::rat) powi (bp - bq - 1) * 2 powi bq"
      using Q2 by (intro mult_strict_left_mono) simp_all
    also have "\<dots> = 2 powi (bp - 1)"
      by (simp flip: power_int_add)
    also have "\<dots> \<le> of_int p" by (rule P1)
    finally show ?thesis
      using qpos by (simp add: x pos_less_divide_eq)
  qed
  show ?thesis
  proof (cases "2 powi (bp - bq) \<le> x")
    case True
    then have "expo x = bp - bq"
      by (simp add: expo_def pq bp_def bq_def)
    with True up show ?thesis by simp
  next
    case False
    then have "expo x = bp - bq - 1"
      by (simp add: expo_def pq bp_def bq_def)
    with False lo show ?thesis by simp
  qed
qed

lemma expo_eqI:
  assumes "0 < x" "2 powi k \<le> x" "x < 2 powi (k + 1)"
  shows "expo x = k"
proof -
  from expo_bounds [OF assms(1)]
  have b: "2 powi (expo x) \<le> x" "x < 2 powi (expo x + 1)" by simp_all
  have "(2::rat) powi k < 2 powi (expo x + 1)"
    using assms(2) b(2) by simp
  then have 1: "k < expo x + 1"
    by (metis power_int_increasing not_less one_le_numeral leD)
  have "(2::rat) powi (expo x) < 2 powi (k + 1)"
    using assms(3) b(1) by simp
  then have 2: "expo x < k + 1"
    by (metis power_int_increasing not_less one_le_numeral leD)
  from 1 2 show ?thesis by simp
qed


lemma round_even_of_int [simp]: "round_even (of_int n) = n"
  by (simp add: round_even_def)

lemma round_even_ge_floor: "\<lfloor>y\<rfloor> \<le> round_even y"
  by (simp add: round_even_def Let_def)

lemma round_even_le_ceiling: "round_even y \<le> \<lceil>y\<rceil>"
proof -
  have "\<lfloor>y\<rfloor> + 1 \<le> \<lceil>y\<rceil>" if "0 < y - of_int \<lfloor>y\<rfloor>"
    using that by (simp add: ceiling_altdef)
  then show ?thesis
    by (auto simp: round_even_def Let_def not_less intro: order_trans [OF floor_le_ceiling])
qed

lemma quantum_neg [simp]: "quantum (- x) = quantum x"
  by (simp add: quantum_def)

lemma double_neg: "double (- x) = num_neg (double x)"
  by (simp add: double_def Let_def sgn_if)

lemma double_pos:
  assumes "0 < x"
  shows "double x =
     (if overflow \<le> of_int (round_even (x / 2 powi quantum x)) * 2 powi quantum x then PosInf
      else Number (of_int (round_even (x / 2 powi quantum x)) * 2 powi quantum x))"
  using assms by (simp add: double_def Let_def)

lemma double_eval:
  assumes "0 < x" "2 powi k \<le> x" "x < 2 powi (k + 1)"
    and "q = max (k - 52) (- 1074)"
    and "round_even (x / 2 powi q) = m"
    and "of_int m * 2 powi q = r"
    and "r < overflow"
  shows "double x = Number r"
proof -
  have "expo x = k" using assms(1-3) by (rule expo_eqI)
  then have "quantum x = q" using assms(1,4) by (simp add: quantum_def)
  then show ?thesis
    using assms by (simp add: double_pos)
qed

lemma double_exact:
  assumes "0 < x" "x / 2 powi quantum x \<in> \<int>" "x < overflow"
  shows "double x = Number x"
proof -
  from assms(2) obtain m :: int where m: "x / 2 powi quantum x = of_int m"
    by (auto elim: Ints_cases)
  have "of_int m * 2 powi quantum x = x"
    using m by (simp add: field_simps)
  then show ?thesis
    using assms by (simp add: double_pos m)
qed

lemma is_double_posD:
  assumes "is_double x" "0 < x"
  shows "x / 2 powi quantum x \<in> \<int>" "x < overflow"
proof -
  let ?r = "of_int (round_even (x / 2 powi quantum x)) * 2 powi quantum x"
  from assms have ov: "\<not> overflow \<le> ?r" and eq: "?r = x"
    by (auto simp: is_double_def double_pos split: if_splits)
  from eq have "x / 2 powi quantum x = of_int (round_even (x / 2 powi quantum x))"
    by (simp add: field_simps)
  then show "x / 2 powi quantum x \<in> \<int>"
    by (metis Ints_of_int)
  from ov eq show "x < overflow" by simp
qed

lemma finer_multiple:
  fixes x :: rat
  assumes "x / 2 powi j \<in> \<int>" "i \<le> j"
  shows "x / 2 powi i \<in> \<int>"
proof -
  have e: "x / 2 powi i = (x / 2 powi j) * 2 powi (j - i)"
    by (simp add: power_int_diff)
  have "(2::rat) powi (j - i) \<in> \<int>"
    using assms(2) by (simp add: power_int_def)
  with assms(1) have "(x / 2 powi j) * 2 powi (j - i) \<in> \<int>"
    by (rule Ints_mult)
  then show ?thesis
    by (simp only: e)
qed

lemma expo_mono:
  assumes "0 < x" "x \<le> y"
  shows "expo x \<le> expo y"
proof -
  have y: "0 < y" using assms by simp
  from expo_bounds [OF assms(1)] expo_bounds [OF y] assms(2)
  have "(2::rat) powi (expo x) < 2 powi (expo y + 1)"
    by simp
  then have "expo x < expo y + 1"
    by (metis power_int_increasing not_less one_le_numeral leD)
  then show ?thesis by simp
qed

lemma quantum_mono: "0 < x \<Longrightarrow> x \<le> y \<Longrightarrow> quantum x \<le> quantum y"
  using expo_mono [of x y] by (simp add: quantum_def)

lemma double_le_pos:
  assumes "0 < x" "x \<le> d" "is_double d"
  shows "num_le (double x) (Number d)"
proof -
  have d: "0 < d" using assms by simp
  let ?q = "quantum x"
  have "d / 2 powi ?q \<in> \<int>"
    using is_double_posD(1) [OF assms(3) d] quantum_mono [OF assms(1,2)]
    by (rule finer_multiple)
  then obtain D :: int where D: "d / 2 powi ?q = of_int D"
    by (auto elim: Ints_cases)
  have "x / 2 powi ?q \<le> of_int D"
    using assms(2) by (simp flip: D add: divide_right_mono)
  then have "\<lceil>x / 2 powi ?q\<rceil> \<le> D"
    by (simp add: ceiling_le_iff)
  with round_even_le_ceiling [of "x / 2 powi ?q"]
  have "round_even (x / 2 powi ?q) \<le> D" by simp
  then have "of_int (round_even (x / 2 powi ?q)) * 2 powi ?q \<le> (of_int D :: rat) * 2 powi ?q"
    by (intro mult_right_mono) simp_all
  also have "\<dots> = d"
    using D by (simp add: field_simps)
  finally have le: "of_int (round_even (x / 2 powi ?q)) * 2 powi ?q \<le> d" .
  with is_double_posD(2) [OF assms(3) d]
  show ?thesis
    using assms(1) by (simp add: double_pos)
qed

lemma double_ge_pos:
  assumes "0 < d" "d \<le> x" "is_double d"
  shows "num_le (Number d) (double x)"
proof -
  have x: "0 < x" using assms by simp
  let ?q = "quantum x"
  let ?t = "x / 2 powi ?q"
  have qd: "quantum d \<le> ?q" using assms(1,2) by (rule quantum_mono)
  have "d \<le> of_int (round_even ?t) * 2 powi ?q"
  proof (cases "quantum d = ?q")
    case True
    with is_double_posD(1) [OF assms(3,1)] obtain D :: int where D: "d / 2 powi ?q = of_int D"
      by (auto elim: Ints_cases)
    have "of_int D \<le> ?t"
      using assms(2) by (simp flip: D add: divide_right_mono)
    then have "D \<le> \<lfloor>?t\<rfloor>"
      by (simp add: le_floor_iff)
    with round_even_ge_floor [of ?t] have "D \<le> round_even ?t" by simp
    then have "(of_int D :: rat) * 2 powi ?q \<le> of_int (round_even ?t) * 2 powi ?q"
      by (intro mult_right_mono) simp_all
    moreover have "of_int D * 2 powi ?q = d"
      using D by (simp add: field_simps)
    ultimately show ?thesis by simp
  next
    case False
    with qd have lt: "quantum d < ?q" by simp
    have "- 1074 \<le> quantum d" by (simp add: quantum_def)
    with lt have q: "?q = expo x - 52" and ed: "expo d + 1 \<le> expo x"
      using assms(1) x by (auto simp: quantum_def max_def split: if_splits)
    have "d < 2 powi (expo d + 1)"
      using expo_bounds [OF assms(1)] by simp
    also have "\<dots> \<le> 2 powi (expo x)"
      using ed by (intro power_int_increasing) simp_all
    finally have dlt: "d < 2 powi (expo x)" .
    define C :: int where "C = 2 ^ 52"
    have C: "(2::rat) powi 52 = of_int C"
      by (simp add: C_def)
    have "(2::rat) powi (52 + (expo x - 52)) = 2 powi 52 * 2 powi (expo x - 52)"
      by (rule power_int_add) simp
    then have split: "(2::rat) powi (expo x) = of_int C * 2 powi ?q"
      by (simp only: q C) simp
    have "of_int C * 2 powi ?q \<le> x"
      using expo_bounds [OF x] by (simp only: split)
    then have "(of_int C :: rat) \<le> ?t"
      by (simp add: pos_le_divide_eq)
    then have "C \<le> \<lfloor>?t\<rfloor>"
      by (simp only: le_floor_iff)
    with round_even_ge_floor [of ?t] have "C \<le> round_even ?t" by simp
    then have "(of_int C :: rat) * 2 powi ?q \<le> of_int (round_even ?t) * 2 powi ?q"
      by (intro mult_right_mono) simp_all
    moreover have "(of_int C :: rat) * 2 powi ?q = 2 powi (expo x)"
      by (simp only: split)
    ultimately show ?thesis
      using dlt by simp
  qed
  then show ?thesis
    using x by (simp add: double_pos)
qed


lemma round_even_nonneg: "0 \<le> y \<Longrightarrow> 0 \<le> round_even y"
  using round_even_ge_floor [of y] by (simp add: order_trans [of 0 "\<lfloor>y\<rfloor>"])

lemma double_nonneg:
  assumes "0 \<le> x"
  shows "num_le (Number 0) (double x)"
proof (cases "x = 0")
  case True
  then show ?thesis by (simp add: double_def)
next
  case False
  with assms have x: "0 < x" by simp
  then have "0 \<le> round_even (x / 2 powi quantum x)"
    by (intro round_even_nonneg) simp
  then show ?thesis
    using x by (simp add: double_pos)
qed

lemma is_double_0 [simp]: "is_double 0"
  by (simp add: is_double_def double_def)

lemma is_double_neg [simp]: "is_double (- x) \<longleftrightarrow> is_double x"
  by (cases "double x") (simp_all add: is_double_def double_neg)

lemma num_le_neg: "num_le (num_neg a) (num_neg b) \<longleftrightarrow> num_le b a"
  by (cases a; cases b) simp_all

lemma double_le:
  assumes "is_double d" "x \<le> d"
  shows "num_le (double x) (Number d)"
proof -
  consider "0 < x" | "x = 0" | "x < 0" "0 \<le> d" | "x < 0" "d < 0"
    by linarith
  then show ?thesis
  proof cases
    case 1
    then show ?thesis using assms by (simp add: double_le_pos)
  next
    case 2
    then show ?thesis using assms by (simp add: double_def)
  next
    case 3
    from double_nonneg [of "- x"] 3(1)
    have "num_le (Number 0) (num_neg (double x))"
      by (simp add: double_neg)
    with 3(2) show ?thesis
      by (cases "double x") simp_all
  next
    case 4
    from double_ge_pos [of "- d" "- x"] 4 assms
    have "num_le (num_neg (Number d)) (num_neg (double x))"
      by (simp add: double_neg)
    then show ?thesis
      by (simp only: num_le_neg)
  qed
qed

lemma double_ge:
  assumes "is_double d" "d \<le> x"
  shows "num_le (Number d) (double x)"
proof -
  from double_le [of "- d" "- x"] assms
  have "num_le (num_neg (double x)) (num_neg (Number d))"
    by (simp add: double_neg)
  then show ?thesis
    by (simp only: num_le_neg)
qed

lemma expo_less:
  assumes "0 < x" "x < 2 powi k"
  shows "expo x < k"
proof -
  from expo_bounds [OF assms(1)] assms(2)
  have "(2::rat) powi (expo x) < 2 powi k" by simp
  then show ?thesis
    by (metis power_int_increasing not_less one_le_numeral leD)
qed

lemma overflow_gt:
  assumes "x \<le> 2 ^ 53"
  shows "x < overflow"
proof -
  have "(2::rat) ^ 53 < 2 ^ 1024"
    by (rule power_strict_increasing) simp_all
  with assms show ?thesis
    unfolding overflow_def by (rule le_less_trans)
qed

lemma is_double_below_2_53:
  assumes "0 < x" "x < 2 ^ 53" "x / 2 powi j \<in> \<int>" "0 \<le> j"
  shows "is_double x"
proof -
  have "expo x < 53"
    using assms(1,2) by (intro expo_less) simp_all
  then have "quantum x \<le> j"
    using assms(1,4) by (simp add: quantum_def)
  with assms(3) have "x / 2 powi quantum x \<in> \<int>"
    by (rule finer_multiple)
  moreover have "x < overflow"
    using assms(2) by (intro overflow_gt) simp
  ultimately show ?thesis
    using assms(1) by (simp only: is_double_def double_exact)
qed

lemma is_double_2_53: "is_double (2 ^ 53)"
proof -
  define y :: rat where "y = 2 ^ 53"
  have y: "0 < y" "2 powi 53 \<le> y" "y < 2 powi (53 + 1)"
    by (simp_all add: y_def)
  then have "expo y = 53"
    by (rule expo_eqI)
  then have "quantum y = 1"
    using y(1) by (simp add: quantum_def)
  moreover have "y / 2 powi 1 \<in> \<int>"
    by (simp add: y_def)
  moreover have "y < overflow"
    by (rule overflow_gt) (simp add: y_def)
  ultimately have "double y = Number y"
    using y(1) by (intro double_exact) simp_all
  then show ?thesis
    by (simp only: is_double_def y_def)
qed

lemma is_double_int:
  assumes "x \<in> \<int>" "\<bar>x\<bar> \<le> 2 ^ 53"
  shows "is_double x"
proof -
  have pos: "is_double y" if "y \<in> \<int>" "0 < y" "y \<le> 2 ^ 53" for y :: rat
  proof (cases "y = 2 ^ 53")
    case True
    then show ?thesis by (simp only: is_double_2_53)
  next
    case False
    with that have "y < 2 ^ 53" by simp
    moreover have "y / 2 powi 0 \<in> \<int>" using that(1) by simp
    ultimately show ?thesis
      using that(2) by (intro is_double_below_2_53 [where j = 0]) simp_all
  qed
  consider "x = 0" | "0 < x" | "x < 0" by linarith
  then show ?thesis
  proof cases
    case 1
    then show ?thesis by simp
  next
    case 2
    with assms show ?thesis by (intro pos) simp_all
  next
    case 3
    with assms have "is_double (- x)" by (intro pos) simp_all
    then show ?thesis by simp
  qed
qed

lemma is_double_minus_1:
  assumes "is_double c" "1 \<le> c" "c \<le> 2 ^ 53"
  shows "is_double (c - 1)"
proof -
  consider "c = 1" | "c = 2 ^ 53" | "1 < c" "c < 2 ^ 53"
    using assms by linarith
  then show ?thesis
  proof cases
    case 1
    then show ?thesis by simp
  next
    case 2
    have "(2::rat) ^ 53 - 1 \<in> \<int>" by simp
    then show ?thesis
      unfolding 2 by (rule is_double_int) simp
  next
    case 3
    have c: "0 < c" using 3 by simp
    have "expo c < 53"
      using c 3(2) by (intro expo_less) simp_all
    then have q0: "quantum c \<le> 0"
      using c by (simp add: quantum_def)
    have "1 / 2 powi quantum c = (2::rat) powi (- quantum c)"
      by (simp add: power_int_minus divide_inverse)
    also have "\<dots> \<in> \<int>"
      using q0 by (simp add: power_int_def)
    finally have "(1::rat) / 2 powi quantum c \<in> \<int>" .
    with is_double_posD(1) [OF assms(1) c]
    have "c / 2 powi quantum c - 1 / 2 powi quantum c \<in> \<int>"
      by (rule Ints_diff)
    then have "(c - 1) / 2 powi quantum c \<in> \<int>"
      by (simp only: diff_divide_distrib)
    moreover have "quantum (c - 1) \<le> quantum c"
      using 3 by (intro quantum_mono) simp_all
    ultimately have "(c - 1) / 2 powi quantum (c - 1) \<in> \<int>"
      by (rule finer_multiple)
    moreover have "c - 1 < overflow"
      using 3 by (intro overflow_gt) simp
    ultimately show ?thesis
      using 3 by (simp only: is_double_def) (rule double_exact, simp_all)
  qed
qed


lemma floor_rat_numeral:
  "\<lfloor>(numeral a :: rat) / numeral b\<rfloor> = numeral a div numeral b"
  using floor_divide_of_int_eq [of "numeral a" "numeral b", where ?'a = rat] by simp

lemma double_1e16_minus_1: "double (10000000000000000 - 1) = Number 10000000000000000"
  by (rule double_eval [where k = 53 and q = 1 and m = 5000000000000000])
    (simp_all add: round_even_def overflow_def Let_def floor_rat_numeral)

lemma double_1e16: "double 10000000000000000 = Number 10000000000000000"
  by (rule double_eval [where k = 53 and q = 1 and m = 5000000000000000])
    (simp_all add: round_even_def overflow_def Let_def floor_rat_numeral)

lemma double_1e18: "double 1000000000000000000 = Number 1000000000000000000"
  by (rule double_eval [where k = 59 and q = 7 and m = 7812500000000000])
    (simp_all add: round_even_def overflow_def Let_def floor_rat_numeral)

lemma double_tenth_plus_1:
  "double (3602879701896397 / 36028797018963968 + 1) = Number (2476979795053773 / 2251799813685248)"
  by (rule double_eval [where k = 0 and q = "- 52" and m = 4953959590107546])
    (simp_all add: round_even_def overflow_def Let_def floor_rat_numeral)

lemma double_tenth_back:
  "double (2476979795053773 / 2251799813685248 - 1) = Number (225179981368525 / 2251799813685248)"
  by (rule double_eval [where k = "- 4" and q = "- 56" and m = 7205759403792800])
    (simp_all add: round_even_def overflow_def Let_def floor_rat_numeral)

lemma double_tenth: "double (1 / 10) = Number (3602879701896397 / 36028797018963968)"
  by (rule double_eval [where k = "- 4" and q = "- 56" and m = 7205759403792794])
    (simp_all add: round_even_def overflow_def Let_def floor_rat_numeral)

lemma is_double_tenth: "is_double (3602879701896397 / 36028797018963968)"
  unfolding is_double_def
  by (rule double_eval [where k = "- 4" and q = "- 56" and m = 7205759403792794])
    (simp_all add: round_even_def overflow_def Let_def floor_rat_numeral)

lemma double_small_ints: "double 1 = Number 1" "double 100 = Number 100" "double 2 = Number 2"
  using is_double_int [of 1] is_double_int [of 100] is_double_int [of 2]
  by (simp_all add: is_double_def)

lemma double_0 [simp]: "double 0 = Number 0"
  by (simp add: double_def)

lemma double_not_NaN [simp]: "double x \<noteq> NaN"
  by (simp add: double_def Let_def)

lemma double_whole: "x \<in> \<int> \<Longrightarrow> \<bar>x\<bar> \<le> 2 ^ 53 \<Longrightarrow> double x = Number x"
  using is_double_int [of x] by (simp add: is_double_def)

lemma double_1 [simp]: "double 1 = Number 1"
  by (rule double_whole) simp_all

lemma double_100 [simp]: "double 100 = Number 100"
  by (rule double_whole) simp_all

section \<open>The example states\<close>

text \<open>
  A first purchase by the registered fulfiller, with an amount \<open>a\<close> that is a double
  and not negative, is answered 200, stores \<open>a / 100\<close> rounded as the credits and
  appends its entry to the ledger.
\<close>

lemma db_bought:
  assumes "is_double a" "0 \<le> a" "double (a / 100) = Number b" "is_double b"
  shows "status (fst (addCredits js0 5 (db_with (Number 0)) 2 (INum a) (IStr ''MPS123''))) = 200"
    and "db_bought a =
           \<lparr>users = [1 \<mapsto> asker0, 2 \<mapsto> fulfiller0\<lparr>u_credits := Some (Number b), u_updatedAt := 5\<rparr>],
            needs = [10 \<mapsto> need0],
            transactions =
              [\<lparr>t_user = 2, t_need = None, t_amount = Number a, t_type = ''credit_purchase'',
                t_mpesaCode = Some ''MPS123'', t_status = ''completed'', t_metadata = None,
                t_createdAt = 5, t_completedAt = None\<rparr>]\<rparr>"
  using assms
  by (simp_all add: db_bought_def addCredits_def toNumber_def saveUser_def saveTransaction_def
      purchaseTransaction_def validTransaction_def transaction_types_def transaction_statuses_def
      startsWith_def Let_def db_with_def db0_def fulfiller0_def is_double_def)

lemma db_bought_100:
  "status (fst (addCredits js0 5 (db_with (Number 0)) 2 (INum 100) (IStr ''MPS123''))) = 200"
  "db_bought 100 =
     \<lparr>users = [1 \<mapsto> asker0, 2 \<mapsto> fulfiller0\<lparr>u_credits := Some (Number 1), u_updatedAt := 5\<rparr>],
      needs = [10 \<mapsto> need0],
      transactions =
        [\<lparr>t_user = 2, t_need = None, t_amount = Number 100, t_type = ''credit_purchase'',
          t_mpesaCode = Some ''MPS123'', t_status = ''completed'', t_metadata = None,
          t_createdAt = 5, t_completedAt = None\<rparr>]\<rparr>"
  by (rule db_bought [where b = 1]; simp add: is_double_def)+

lemma db_bought_10:
  "status (fst (addCredits js0 5 (db_with (Number 0)) 2 (INum 10) (IStr ''MPS123''))) = 200"
  "db_bought 10 =
     \<lparr>users = [1 \<mapsto> asker0,
               2 \<mapsto> fulfiller0\<lparr>u_credits := Some (Number (3602879701896397 / 36028797018963968)),
                              u_updatedAt := 5\<rparr>],
      needs = [10 \<mapsto> need0],
      transactions =
        [\<lparr>t_user = 2, t_need = None, t_amount = Number 10, t_type = ''credit_purchase'',
          t_mpesaCode = Some ''MPS123'', t_status = ''completed'', t_metadata = None,
          t_createdAt = 5, t_completedAt = None\<rparr>]\<rparr>"
proof -
  have a: "is_double 10" "(0::rat) \<le> 10"
    "double (10 / 100) = Number (3602879701896397 / 36028797018963968)"
    by (simp_all add: is_double_int double_tenth)
  show "status (fst (addCredits js0 5 (db_with (Number 0)) 2 (INum 10) (IStr ''MPS123''))) = 200"
    using a is_double_tenth by (rule db_bought(1))
  show "db_bought 10 =
     \<lparr>users = [1 \<mapsto> asker0,
               2 \<mapsto> fulfiller0\<lparr>u_credits := Some (Number (3602879701896397 / 36028797018963968)),
                              u_updatedAt := 5\<rparr>],
      needs = [10 \<mapsto> need0],
      transactions =
        [\<lparr>t_user = 2, t_need = None, t_amount = Number 10, t_type = ''credit_purchase'',
          t_mpesaCode = Some ''MPS123'', t_status = ''completed'', t_metadata = None,
          t_createdAt = 5, t_completedAt = None\<rparr>]\<rparr>"
    using a is_double_tenth by (rule db_bought(2))
qed

lemma db_bought_1e18:
  "status (fst (addCredits js0 5 (db_with (Number 0)) 2 (INum 1000000000000000000)
                  (IStr ''MPS123''))) = 200"
  "db_bought 1000000000000000000 =
     \<lparr>users = [1 \<mapsto> asker0,
               2 \<mapsto> fulfiller0\<lparr>u_credits := Some (Number 10000000000000000), u_updatedAt := 5\<rparr>],
      needs = [10 \<mapsto> need0],
      transactions =
        [\<lparr>t_user = 2, t_need = None, t_amount = Number 1000000000000000000,
          t_type = ''credit_purchase'', t_mpesaCode = Some ''MPS123'', t_status = ''completed'',
          t_metadata = None, t_createdAt = 5, t_completedAt = None\<rparr>]\<rparr>"
  by (rule db_bought [where b = 10000000000000000];
      simp add: double_1e16 double_1e18 is_double_def)+

section \<open>Unlocking: what a request does\<close>

lemmas unlock_defs = unlock_def unlockCheck_def unlockWrite_def toNumber_def saveUser_def
  saveNeed_def saveTransaction_def unlockTransaction_def validTransaction_def
  transaction_types_def transaction_statuses_def contactInfo_def num_minus_def Let_def

lemmas example_defs = db0_def need0_def asker0_def fulfiller0_def

text \<open>
  C1. When the need exists, the caller is a fulfiller who has not unlocked it and holds
  credits of at least 1, and the need's owner is on record, the request, served with no
  other request between its checks and its saves, answers 200 with
  exactly the owner's fullName, phone, email, location and rating; the caller is
  appended to \<^verbatim>\<open>unlockedBy\<close>, and one completed unlock transaction of amount 100 for
  this caller and this need is appended to the ledger. The caller's credits become
  \<^verbatim>\<open>credits - 1\<close> as doubles subtract: that is credits - 1 itself whenever the
  credits are at most \<open>2\<^sup>5\<^sup>3\<close>. No reply of the handler has a password field.
\<close>

theorem unlock_success:
  assumes "needs d needId = Some need"
    and "users d userId = Some user"
    and "u_role user = ''fulfiller''"
    and "userId \<notin> set (n_unlockedBy need)"
    and "toNumber (u_credits user) = c" and "num_le (Number 1) c"
    and "users d (n_user need) = Some asker"
  shows "unlock now d (Some needId) userId =
           (Done 200 (JObj [(''success'', JBool True),
                            (''message'', JStr ''Need unlocked successfully''),
                            (''contactInfo'',
                               JObj [(''fullName'', JStr (u_fullName asker)),
                                     (''phone'', JStr (u_phone asker)),
                                     (''email'', JStr (u_email asker)),
                                     (''location'', JStr (u_location asker)),
                                     (''rating'', JNum (u_rating asker))])]),
            d\<lparr>users := (users d)(userId \<mapsto> user\<lparr>u_credits := Some (num_minus c (Number 1)),
                                                   u_updatedAt := now\<rparr>),
              needs := (needs d)(needId \<mapsto> need\<lparr>n_unlockedBy := n_unlockedBy need @ [userId],
                                                   n_updatedAt := now\<rparr>),
              transactions := transactions d @
                [\<lparr>t_user = userId, t_need = Some needId, t_amount = Number 100, t_type = ''unlock'',
                  t_mpesaCode = None, t_status = ''completed'', t_metadata = None,
                  t_createdAt = now, t_completedAt = None\<rparr>]\<rparr>)
         \<and> (c = Number x \<and> is_double x \<and> x \<le> 2 ^ 53
                \<longrightarrow> num_minus c (Number 1) = Number (x - 1))
         \<and> \<not> has_key ''password'' (body (fst (unlock now d (Some needId) userId)))"
proof -
  have exact: "num_minus c (Number 1) = Number (x - 1)"
    if "c = Number x" "is_double x" "x \<le> 2 ^ 53"
  proof -
    from that(1) assms(6) have "1 \<le> x" by simp
    from is_double_minus_1 [OF that(2) this that(3)] that(1) show ?thesis
      by (simp add: is_double_def num_minus_def)
  qed
  have ge: "\<not> num_less c (Number 1)" and nn: "num_minus c (Number 1) \<noteq> NaN"
    using assms(6) by (cases c; simp add: num_minus_def)+
  have "unlockCheck d (Some needId) userId =
      Inr \<lparr>l_needId = needId, l_userId = userId, l_credits = num_minus c (Number 1),
           l_owner = n_user need\<rparr>"
    using assms ge by (simp add: unlockCheck_def)
  then show ?thesis
    using assms exact nn
    by (auto simp: unlock_def unlockWrite_def saveUser_def saveNeed_def saveTransaction_def
        unlockTransaction_def validTransaction_def transaction_types_def
        transaction_statuses_def contactInfo_def)
qed

theorem unlock_success_witness:
  "needs db0 10 = Some need0 \<and> users db0 2 = Some fulfiller0 \<and> u_role fulfiller0 = ''fulfiller'' \<and>
   2 \<notin> set (n_unlockedBy need0) \<and> toNumber (u_credits fulfiller0) = Number 1 \<and>
   num_le (Number 1) (Number 1) \<and>
   users db0 (n_user need0) = Some asker0 \<and> is_double 1 \<and>
   fst (unlock 7 db0 (Some 10) 2) =
     Done 200 (JObj [(''success'', JBool True),
                     (''message'', JStr ''Need unlocked successfully''),
                     (''contactInfo'',
                        JObj [(''fullName'', JStr ''Amina''),
                              (''phone'', JStr ''+254700000001''),
                              (''email'', JStr ''asker@example.com''),
                              (''location'', JStr ''Nairobi''),
                              (''rating'', JNum 5)])]) \<and>
   balance (snd (unlock 7 db0 (Some 10) 2)) 2 = Number 0 \<and>
   map t_type (transactions (snd (unlock 7 db0 (Some 10) 2))) = [''unlock'']"
proof -
  have h: "needs db0 10 = Some need0" "users db0 2 = Some fulfiller0"
    "u_role fulfiller0 = ''fulfiller''" "2 \<notin> set (n_unlockedBy need0)"
    "toNumber (u_credits fulfiller0) = Number 1" "num_le (Number 1) (Number 1)"
    "users db0 (n_user need0) = Some asker0"
    by (simp_all add: db0_def need0_def fulfiller0_def toNumber_def)
  have i: "is_double 1"
    by (simp add: is_double_def)
  obtain r d' where e: "unlock 7 db0 (Some 10) 2 = (r, d')"
    by (cases "unlock 7 db0 (Some 10) 2")
  from unlock_success [OF h, where now = 7 and x = 1] i
  have "r = Done 200 (JObj [(''success'', JBool True),
                     (''message'', JStr ''Need unlocked successfully''),
                     (''contactInfo'',
                        JObj [(''fullName'', JStr ''Amina''),
                              (''phone'', JStr ''+254700000001''),
                              (''email'', JStr ''asker@example.com''),
                              (''location'', JStr ''Nairobi''),
                              (''rating'', JNum 5)])])"
    and "balance d' 2 = Number 0" and "map t_type (transactions d') = [''unlock'']"
    unfolding e by (auto simp: balance_def toNumber_def asker0_def db0_def)
  with h i show ?thesis
    unfolding e by simp
qed

theorem unlock_large_balance_counterexample:
  "status (fst (addCredits js0 5 (db_with (Number 0)) 2 (INum 1000000000000000000)
                  (IStr ''MPS123''))) = 200 \<and>
   balance (db_bought 1000000000000000000) 2 = Number 10000000000000000 \<and>
   status (fst (unlock 7 (db_bought 1000000000000000000) (Some 10) 2)) = 200 \<and>
   balance (snd (unlock 7 (db_bought 1000000000000000000) (Some 10) 2)) 2
     = Number 10000000000000000"
  using double_1e16_minus_1
  by (simp add: db_bought_1e18 unlock_defs asker0_def need0_def fulfiller0_def balance_def)

text \<open>
  C2. After an unlock that succeeded, the same fulfiller's next unlock of the same need
  answers 400 AlreadyUnlocked and leaves the database as it is: the balance is not
  charged and the ledger gets no entry.
\<close>

theorem unlock_twice:
  assumes "unlock now d idParam userId = (Done k j, d')"
  shows "unlock now' d' idParam userId = (AlreadyUnlocked, d') \<and> status AlreadyUnlocked = 400
         \<and> balance (snd (unlock now' d' idParam userId)) userId = balance d' userId
         \<and> transactions (snd (unlock now' d' idParam userId)) = transactions d'"
proof -
  have "unlock now' d' idParam userId = (AlreadyUnlocked, d')"
    using assms
    by (auto simp: unlock_defs AlreadyUnlocked_def split: option.splits if_splits)
  then show ?thesis by (simp add: AlreadyUnlocked_def)
qed

theorem unlock_twice_witness:
  "status (fst (unlock 7 db0 (Some 10) 2)) = 200 \<and>
   unlock 8 (snd (unlock 7 db0 (Some 10) 2)) (Some 10) 2 =
     (Fail 400 ''Already unlocked this need'', snd (unlock 7 db0 (Some 10) 2)) \<and>
   balance (snd (unlock 8 (snd (unlock 7 db0 (Some 10) 2)) (Some 10) 2)) 2 = Number 0"
proof -
  obtain j d' where first: "unlock 7 db0 (Some 10) 2 = (Done 200 j, d')"
    by (simp add: unlock_defs example_defs)
  have bal: "balance d' 2 = Number 0"
    using first by (auto simp: unlock_defs example_defs balance_def)
  from unlock_twice [OF first, of 8] first bal show ?thesis
    by (simp add: AlreadyUnlocked_def)
qed

text \<open>
  C3. A fulfiller whose credits are 0 gets 400 InsufficientCredits for a need that exists
  and that they have not unlocked; a need that is missing gives 404 NotFound; a caller
  on record whose role is not fulfiller gets 403 Forbidden for a need that exists, and
  404 for one that is missing (the handler looks the need up first). In each case the
  database is returned as it was: credits, \<^verbatim>\<open>unlockedBy\<close> and ledger are
  untouched.
\<close>

theorem unlock_errors:
  "(needs d needId = None \<longrightarrow> unlock now d (Some needId) userId = (NotFound, d)) \<and>
   (needs d needId = Some need \<and> users d userId = Some user \<and> u_role user \<noteq> ''fulfiller''
      \<longrightarrow> unlock now d (Some needId) userId = (Forbidden, d)) \<and>
   (needs d needId = Some need \<and> users d userId = Some user \<and> u_role user = ''fulfiller'' \<and>
    userId \<notin> set (n_unlockedBy need) \<and> u_credits user = Some (Number 0)
      \<longrightarrow> unlock now d (Some needId) userId = (InsufficientCredits, d)) \<and>
   (users d userId = Some user \<and> u_role user \<noteq> ''fulfiller''
      \<longrightarrow> unlock now d (Some needId) userId \<in> {(NotFound, d), (Forbidden, d)}) \<and>
   status NotFound = 404 \<and> status Forbidden = 403 \<and> status InsufficientCredits = 400"
  by (simp add: unlock_defs NotFound_def Forbidden_def InsufficientCredits_def
      split: option.splits)

theorem unlock_errors_witness:
  "needs db0 11 = None \<and> unlock 7 db0 (Some 11) 2 = (Fail 404 ''Need not found'', db0) \<and>
   needs db0 10 = Some need0 \<and> users db0 1 = Some asker0 \<and> u_role asker0 \<noteq> ''fulfiller'' \<and>
   unlock 7 db0 (Some 10) 1 = (Fail 403 ''Only fulfillers can unlock needs'', db0) \<and>
   users (db0\<lparr>users := [2 \<mapsto> fulfiller0\<lparr>u_credits := Some (Number 0)\<rparr>]\<rparr>) 2
     = Some (fulfiller0\<lparr>u_credits := Some (Number 0)\<rparr>) \<and>
   unlock 7 (db0\<lparr>users := [2 \<mapsto> fulfiller0\<lparr>u_credits := Some (Number 0)\<rparr>]\<rparr>) (Some 10) 2 =
     (Fail 400 ''Insufficient credits. Please add credits first.'',
      db0\<lparr>users := [2 \<mapsto> fulfiller0\<lparr>u_credits := Some (Number 0)\<rparr>]\<rparr>)"
proof -
  have a: "needs db0 11 = None" "needs db0 10 = Some need0" "users db0 1 = Some asker0"
    "u_role asker0 \<noteq> ''fulfiller''"
    by (simp_all add: example_defs)
  have b: "needs (db0\<lparr>users := [2 \<mapsto> fulfiller0\<lparr>u_credits := Some (Number 0)\<rparr>]\<rparr>) 10 = Some need0"
    "users (db0\<lparr>users := [2 \<mapsto> fulfiller0\<lparr>u_credits := Some (Number 0)\<rparr>]\<rparr>) 2
       = Some (fulfiller0\<lparr>u_credits := Some (Number 0)\<rparr>)"
    "u_role (fulfiller0\<lparr>u_credits := Some (Number 0)\<rparr>) = ''fulfiller''"
    "2 \<notin> set (n_unlockedBy need0)"
    "u_credits (fulfiller0\<lparr>u_credits := Some (Number 0)\<rparr>) = Some (Number 0)"
    by (simp_all add: example_defs)
  from unlock_errors [where d = db0 and needId = 11 and now = 7 and userId = 2] a
  have 1: "unlock 7 db0 (Some 11) 2 = (Fail 404 ''Need not found'', db0)"
    by (simp add: NotFound_def)
  from unlock_errors [where d = db0 and needId = 10 and need = need0 and userId = 1
      and user = asker0 and now = 7] a
  have 2: "unlock 7 db0 (Some 10) 1 = (Fail 403 ''Only fulfillers can unlock needs'', db0)"
    by (simp add: Forbidden_def)
  from unlock_errors [where d = "db0\<lparr>users := [2 \<mapsto> fulfiller0\<lparr>u_credits := Some (Number 0)\<rparr>]\<rparr>"
      and needId = 10 and need = need0 and userId = 2
      and user = "fulfiller0\<lparr>u_credits := Some (Number 0)\<rparr>" and now = 7] b
  have 3: "unlock 7 (db0\<lparr>users := [2 \<mapsto> fulfiller0\<lparr>u_credits := Some (Number 0)\<rparr>]\<rparr>) (Some 10) 2 =
     (Fail 400 ''Insufficient credits. Please add credits first.'',
      db0\<lparr>users := [2 \<mapsto> fulfiller0\<lparr>u_credits := Some (Number 0)\<rparr>]\<rparr>)"
    by (simp add: InsufficientCredits_def)
  from a b 1 2 3 show ?thesis by simp
qed

section \<open>Credits\<close>

lemmas add_defs = addCredits_def toNumber_def saveUser_def saveTransaction_def
  purchaseTransaction_def validTransaction_def transaction_types_def transaction_statuses_def
  startsWith_def Let_def

lemma num_add_double_not_NaN [simp]: "num_add (Number c) (double x) \<noteq> NaN"
  by (cases "double x") simp_all

lemma num_le_refl: "stored n \<Longrightarrow> num_le n n"
  by (cases n) simp_all



lemma num_add_nonneg:
  assumes "is_double c" "num_le (Number 0) y"
  shows "num_le (Number c) (num_add (Number c) y)"
proof (cases y)
  case (Number z)
  with assms(2) have "0 \<le> z" by simp
  then have "num_le (Number c) (double (c + z))"
    using assms(1) by (intro double_ge) simp_all
  with Number show ?thesis by simp
qed (use assms(2) in simp_all)

lemma over_100_nonneg: "num_le (Number 0) a \<Longrightarrow> num_le (Number 0) (over_100 a)"
  by (cases a) (simp_all add: double_nonneg)





text \<open>
  A negative amount need not lower the balance: at \<open>10\<^sup>1\<^sup>6\<close> credits the amount
  -100 leaves the credits where they were, since \<open>10\<^sup>1\<^sup>6 - 1\<close> rounds to
  \<open>10\<^sup>1\<^sup>6\<close>.
\<close>

lemma addCredits_negative_absorbed:
  "balance (db_bought 1000000000000000000) 2 = Number 10000000000000000 \<and>
   balance (snd (addCredits js0 7 (db_bought 1000000000000000000) 2 (INum (- 100))
                  (IStr ''MPS123''))) 2 = Number 10000000000000000"
proof -
  have "double (- 100) = Number (- 100)" "double (- 1) = Number (- 1)"
    by (rule double_whole; simp)+
  then show ?thesis
    using double_1e16_minus_1
    by (simp add: db_bought_1e18 add_defs fulfiller0_def balance_def)
qed

lemma unlock_balance_le:
  assumes "stored (balance d v)"
  shows "num_le (balance (snd (unlock now d idParam userId)) v) (balance d v)"
proof -
  have dec: "num_le (num_minus c (Number 1)) c" if "stored c" "\<not> num_less c (Number 1)" for c
  proof (cases c)
    case (Number x)
    with that have "is_double x" "x - 1 \<le> x" by simp_all
    then have "num_le (double (x - 1)) (Number x)" by (rule double_le)
    with Number show ?thesis by (simp add: num_minus_def)
  qed (use that in \<open>simp_all add: num_minus_def\<close>)
  have refl: "num_le (balance d v) (balance d v)"
    using assms by (rule num_le_refl)
  show ?thesis
  proof (cases "unlockCheck d idParam userId")
    case (Inl r)
    with refl show ?thesis by (simp add: unlock_def)
  next
    case (Inr p)
    then obtain user where u: "users d userId = Some user" "l_userId p = userId"
      "l_credits p = num_minus (toNumber (u_credits user)) (Number 1)"
      "\<not> num_less (toNumber (u_credits user)) (Number 1)"
      by (auto simp: unlockCheck_def split: option.splits if_splits)
    have users': "users (snd (unlockWrite now p d)) = users d \<or>
        users (snd (unlockWrite now p d)) =
          (users d)(userId \<mapsto> user\<lparr>u_credits := Some (l_credits p), u_updatedAt := now\<rparr>)"
      using u by (auto simp: unlockWrite_def saveUser_def saveNeed_def saveTransaction_def
          split: option.splits if_splits)
    show ?thesis
    proof (cases "v = userId")
      case True
      with assms u have "stored (toNumber (u_credits user))"
        by (simp add: balance_def)
      from dec [OF this u(4)] True u users' refl show ?thesis
        by (auto simp: unlock_def Inr balance_def toNumber_def)
    next
      case False
      with users' refl show ?thesis
        by (auto simp: unlock_def Inr balance_def)
    qed
  qed
qed

lemma cast_to_number:
  "castAmount e amount = Some a \<Longrightarrow> to_number e amount = a"
  by (cases amount) (auto split: if_splits number.splits)

lemma addCredits_balance_ge:
  assumes "stored (balance d v)"
    and "status (fst (addCredits e now d userId amount mpesaCode)) = 200"
  shows "num_le (balance d v) (balance (snd (addCredits e now d userId amount mpesaCode)) v)"
proof -
  from assms(2) obtain code user a where
    c: "mpesaCode = IStr code" "truthy_input mpesaCode" "startsWith code ''MPS''"
    and u: "users d userId = Some user"
    and nn: "num_add (toNumber (u_credits user)) (over_100 (to_number e amount)) \<noteq> NaN"
    and a: "castAmount e amount = Some a" "num_le (Number 0) a"
    by (auto simp: addCredits_def saveUser_def saveTransaction_def purchaseTransaction_def
        validTransaction_def Let_def split: if_splits input.splits option.splits)
  from a have pos: "num_le (Number 0) (over_100 (to_number e amount))"
    by (simp add: cast_to_number over_100_nonneg)
  have users': "users (snd (addCredits e now d userId amount mpesaCode)) =
      (users d)(userId \<mapsto> user\<lparr>u_credits :=
          Some (num_add (toNumber (u_credits user)) (over_100 (to_number e amount))),
        u_updatedAt := now\<rparr>)"
    using c u nn a
    by (simp add: addCredits_def saveUser_def saveTransaction_def purchaseTransaction_def
        validTransaction_def transaction_types_def transaction_statuses_def Let_def)
  show ?thesis
  proof (cases "v = userId")
    case False
    with users' num_le_refl [OF assms(1)] show ?thesis
      by (simp add: balance_def)
  next
    case True
    with assms(1) u have st: "stored (toNumber (u_credits user))"
      by (simp add: balance_def)
    have "num_le (toNumber (u_credits user))
        (num_add (toNumber (u_credits user)) (over_100 (to_number e amount)))"
    proof (cases "toNumber (u_credits user)")
      case (Number x)
      with st pos show ?thesis by (simp add: num_add_nonneg)
    next
      case NaN
      with st show ?thesis by simp
    next
      case PosInf
      with pos nn show ?thesis
        by (cases "over_100 (to_number e amount)") simp_all
    next
      case NegInf
      with pos nn show ?thesis
        by (cases "over_100 (to_number e amount)") simp_all
    qed
    with True u users' show ?thesis
      by (simp add: balance_def toNumber_def)
  qed
qed

text \<open>
  C6. The requests are served one after the other. For a balance that is a whole number
  below \<open>2\<^sup>5\<^sup>3\<close>, a purchase of 100 with a code that starts with MPS followed by an
  unlock that succeeds leaves the buyer's balance where it was. Whatever the balances,
  no unlock request raises one and no purchase that is answered 200 lowers one.
\<close>

theorem credits_roundtrip:
  "(users d userId = Some user \<and> toNumber (u_credits user) = Number b \<and>
    b \<in> \<int> \<and> 0 \<le> b \<and> b < 2 ^ 53 \<and> startsWith code ''MPS'' \<and>
    addCredits e now d userId (INum 100) (IStr code) = (r1, d1) \<and>
    unlock now' d1 idParam userId = (Done k j, d2)
      \<longrightarrow> balance d2 userId = balance d userId) \<and>
   (stored (balance d v)
      \<longrightarrow> num_le (balance (snd (unlock now d idParam userId)) v) (balance d v)) \<and>
   (stored (balance d v) \<and> status (fst (addCredits e now d userId amount mpesaCode)) = 200
      \<longrightarrow> num_le (balance d v) (balance (snd (addCredits e now d userId amount mpesaCode)) v))"
proof (intro conjI impI)
  assume h: "users d userId = Some user \<and> toNumber (u_credits user) = Number b \<and>
    b \<in> \<int> \<and> 0 \<le> b \<and> b < 2 ^ 53 \<and> startsWith code ''MPS'' \<and>
    addCredits e now d userId (INum 100) (IStr code) = (r1, d1) \<and>
    unlock now' d1 idParam userId = (Done k j, d2)"
  then obtain n :: int where n: "b = of_int n"
    by (auto elim: Ints_cases)
  with h have "0 \<le> n" "n + 1 \<le> 2 ^ 53"
    by simp_all
  then have "\<bar>rat_of_int (n + 1)\<bar> \<le> 2 ^ 53" "\<bar>rat_of_int n\<bar> \<le> 2 ^ 53"
    by (simp_all only: of_int_abs [symmetric] of_int_le_numeral_power_cancel_iff)
  then have up: "double (b + 1) = Number (b + 1)" and down: "double b = Number b"
    by (simp_all add: n double_whole)
  from h have code: "truthy_input (IStr code)"
    by (auto simp: startsWith_def)
  from h code up have d1: "users d1 userId =
      Some (user\<lparr>u_credits := Some (Number (b + 1)), u_updatedAt := now\<rparr>)"
    by (auto simp: addCredits_def saveUser_def saveTransaction_def purchaseTransaction_def
        validTransaction_def transaction_types_def transaction_statuses_def Let_def)
  from h d1 down have "users d2 userId =
      Some (user\<lparr>u_credits := Some (Number b), u_updatedAt := now'\<rparr>)"
    by (auto simp: unlock_defs split: option.splits if_splits)
  with h show "balance d2 userId = balance d userId"
    by (simp add: balance_def toNumber_def)
next
  assume "stored (balance d v)"
  then show "num_le (balance (snd (unlock now d idParam userId)) v) (balance d v)"
    by (rule unlock_balance_le)
next
  assume "stored (balance d v) \<and> status (fst (addCredits e now d userId amount mpesaCode)) = 200"
  then show "num_le (balance d v) (balance (snd (addCredits e now d userId amount mpesaCode)) v)"
    by (intro addCredits_balance_ge) simp_all
qed


theorem credits_roundtrip_witness:
  "users db0 2 = Some fulfiller0 \<and> toNumber (u_credits fulfiller0) = Number 1 \<and>
   startsWith ''MPS123'' ''MPS'' \<and> stored (balance db0 2) \<and>
   status (fst (addCredits js0 7 db0 2 (INum 100) (IStr ''MPS123''))) = 200 \<and>
   balance (snd (addCredits js0 7 db0 2 (INum 100) (IStr ''MPS123''))) 2 = Number 2 \<and>
   status (fst (unlock 8 (snd (addCredits js0 7 db0 2 (INum 100) (IStr ''MPS123'')))
                 (Some 10) 2)) = 200 \<and>
   balance (snd (unlock 8 (snd (addCredits js0 7 db0 2 (INum 100) (IStr ''MPS123'')))
                 (Some 10) 2)) 2 = balance db0 2 \<and>
   balance db0 2 = Number 1 \<and>
   num_le (balance db0 2) (balance (snd (addCredits js0 7 db0 2 (INum 100) (IStr ''MPS123''))) 2) \<and>
   num_le (balance (snd (unlock 7 db0 (Some 10) 2)) 2) (balance db0 2)"
proof -
  have p: "users db0 2 = Some fulfiller0" "toNumber (u_credits fulfiller0) = Number 1"
    "startsWith ''MPS123'' ''MPS''" "(1::rat) \<in> \<int>" "(0::rat) \<le> 1" "(1::rat) < 2 ^ 53"
    by (simp_all add: example_defs toNumber_def startsWith_def)
  have b: "balance db0 2 = Number 1"
    by (simp add: balance_def toNumber_def example_defs)
  have s: "stored (balance db0 2)"
    by (simp add: b is_double_def)
  have two: "double 2 = Number 2"
    by (rule double_whole) simp_all
  obtain r1 d1 where a: "addCredits js0 7 db0 2 (INum 100) (IStr ''MPS123'') = (r1, d1)"
    by (cases "addCredits js0 7 db0 2 (INum 100) (IStr ''MPS123'')")
  have a': "status r1 = 200" "balance d1 2 = Number 2"
    using a two by (auto simp: add_defs example_defs balance_def)
  obtain j d2 where u: "unlock 8 d1 (Some 10) 2 = (Done 200 j, d2)"
    using a two by (auto simp: add_defs unlock_defs example_defs)
  note t = credits_roundtrip [where d = db0 and userId = 2 and user = fulfiller0 and b = 1
      and code = "''MPS123''" and e = js0 and now = 7 and ?r1.0 = r1 and ?d1.0 = d1
      and now' = 8 and idParam = "Some 10" and k = 200 and j = j and ?d2.0 = d2 and v = 2
      and amount = "INum 100" and mpesaCode = "IStr ''MPS123''"]
  from t p a u have 1: "balance d2 2 = balance db0 2"
    by blast
  from t s a a'(1) have 2: "num_le (balance db0 2) (balance d1 2)"
    by simp
  from t s have 3: "num_le (balance (snd (unlock 7 db0 (Some 10) 2)) 2) (balance db0 2)"
    by blast
  from p a a' u b s 1 2 3 show ?thesis
    by simp
qed

theorem roundtrip_tenth_counterexample:
  "status (fst (addCredits js0 5 (db_with (Number 0)) 2 (INum 10) (IStr ''MPS123''))) = 200 \<and>
   balance (db_bought 10) 2 = Number (3602879701896397 / 36028797018963968) \<and>
   status (fst (addCredits js0 7 (db_bought 10) 2 (INum 100) (IStr ''MPS123''))) = 200 \<and>
   status (fst (unlock 8 (snd (addCredits js0 7 (db_bought 10) 2 (INum 100) (IStr ''MPS123'')))
                  (Some 10) 2)) = 200 \<and>
   balance (snd (unlock 8 (snd (addCredits js0 7 (db_bought 10) 2 (INum 100) (IStr ''MPS123'')))
                  (Some 10) 2)) 2
     = Number (225179981368525 / 2251799813685248) \<and>
   balance (snd (unlock 8 (snd (addCredits js0 7 (db_bought 10) 2 (INum 100) (IStr ''MPS123'')))
                  (Some 10) 2)) 2
     \<noteq> balance (db_bought 10) 2"
proof -
  have b: "balance (db_bought 10) 2 = Number (3602879701896397 / 36028797018963968)"
    by (simp add: db_bought_10 balance_def toNumber_def)
  obtain r1 d1 where a: "addCredits js0 7 (db_bought 10) 2 (INum 100) (IStr ''MPS123'') = (r1, d1)"
    by (cases "addCredits js0 7 (db_bought 10) 2 (INum 100) (IStr ''MPS123'')")
  have a': "status r1 = 200"
    "users d1 2 = Some (fulfiller0\<lparr>u_credits := Some (Number (2476979795053773 / 2251799813685248)),
        u_updatedAt := 7\<rparr>)"
    "users d1 1 = Some asker0" "needs d1 10 = Some need0"
    using a double_tenth_plus_1
    by (auto simp: db_bought_10 add_defs fulfiller0_def add.commute)
  have u: "status (fst (unlock 8 d1 (Some 10) 2)) = 200"
    "balance (snd (unlock 8 d1 (Some 10) 2)) 2 = Number (225179981368525 / 2251799813685248)"
    using a' double_tenth_back
    by (simp_all add: unlock_defs example_defs balance_def)
  from a a' u b db_bought_10(1) show ?thesis
    by simp
qed

text \<open>
  The round trip is one of requests served one after the other. An unlock that has
  passed its checks saves the credits it computed then: a purchase served before that
  save is answered 200 and then overwritten.
\<close>

lemma overlapping_purchase_lost:
  "unlockCheck (db_bought 100) (Some 10) 2 = Inr unlocking0 \<and>
   status (fst (addCredits js0 6 (db_bought 100) 2 (INum 100) (IStr ''MPS123''))) = 200 \<and>
   balance (snd (addCredits js0 6 (db_bought 100) 2 (INum 100) (IStr ''MPS123''))) 2 = Number 2 \<and>
   status (fst (unlockWrite 7 unlocking0
                  (snd (addCredits js0 6 (db_bought 100) 2 (INum 100) (IStr ''MPS123''))))) = 200 \<and>
   balance (snd (unlockWrite 7 unlocking0
                  (snd (addCredits js0 6 (db_bought 100) 2 (INum 100) (IStr ''MPS123''))))) 2
     = Number 0"
proof -
  have two: "double 2 = Number 2"
    by (rule double_whole) simp_all
  obtain r1 d1 where a: "addCredits js0 6 (db_bought 100) 2 (INum 100) (IStr ''MPS123'') = (r1, d1)"
    by (cases "addCredits js0 6 (db_bought 100) 2 (INum 100) (IStr ''MPS123'')")
  have a': "status r1 = 200" "balance d1 2 = Number 2"
    "users d1 2 = Some (fulfiller0\<lparr>u_credits := Some (Number 2), u_updatedAt := 6\<rparr>)"
    "users d1 1 = Some asker0" "needs d1 10 = Some need0"
    using a two by (auto simp: db_bought_100 add_defs fulfiller0_def balance_def)
  have c: "unlockCheck (db_bought 100) (Some 10) 2 = Inr unlocking0"
    by (simp add: db_bought_100 unlock_defs fulfiller0_def need0_def unlocking0_def)
  have w: "status (fst (unlockWrite 7 unlocking0 d1)) = 200"
    "balance (snd (unlockWrite 7 unlocking0 d1)) 2 = Number 0"
    using a' by (simp_all add: unlock_defs unlocking0_def balance_def)
  from a a' c w show ?thesis
    by simp
qed

section \<open>Posting a need: what the schema refuses\<close>

lemmas post_defs = postNeed_def validationResult_def validNeed_def newNeed_def
  need_categories_def need_timeframes_def need_statuses_def Let_def

text \<open>
  C4. A request whose budget is negative or whose category is outside the enumeration
  is refused and creates no need: the database is returned as it was. The reply is 400
  exactly when one of the express-validator chains fails; otherwise it is 403 (the caller
  is not an asker) or the 500 of the handler's \<^verbatim>\<open>catch\<close>, which is where the
  rejection by the schema arrives.
\<close>

theorem postNeed_rejects:
  assumes "(\<exists>q. b_budget b = Some q \<and> q < 0) \<or> b_category b \<notin> set need_categories"
  shows "snd (postNeed lib now d userId newId b) = d \<and>
         needs (snd (postNeed lib now d userId newId b)) = needs d \<and>
         status (fst (postNeed lib now d userId newId b)) \<in> {400, 403, 500} \<and>
         (status (fst (postNeed lib now d userId newId b)) = 400 \<longleftrightarrow> validationResult b \<noteq> [])"
proof -
  have bad: "\<not> validNeed (newNeed lib now userId b q)" if "b_budget b = Some q" for q
    using assms that by (auto simp: validNeed_def newNeed_def)
  have none: "validationResult b \<noteq> []" if "b_budget b = None"
    using that by (simp add: validationResult_def)
  show ?thesis
    using bad none by (auto simp: postNeed_def Let_def split: option.splits)
qed

theorem postNeed_rejects_witness:
  "b_budget (body0\<lparr>b_budget := Some (- 5)\<rparr>) = Some (- 5) \<and> (- 5 :: rat) < 0 \<and>
   snd (postNeed lib0 7 db0 1 11 (body0\<lparr>b_budget := Some (- 5)\<rparr>)) = db0 \<and>
   status (fst (postNeed lib0 7 db0 1 11 (body0\<lparr>b_budget := Some (- 5)\<rparr>))) \<in> {400, 403, 500}"
proof -
  have h: "(\<exists>q. b_budget (body0\<lparr>b_budget := Some (- 5)\<rparr>) = Some q \<and> q < 0) \<or>
           b_category (body0\<lparr>b_budget := Some (- 5)\<rparr>) \<notin> set need_categories"
    by simp
  from postNeed_rejects [OF h, of lib0 7 db0 1 11] show ?thesis by auto
qed

theorem postNeed_negative_budget_counterexample:
  "postNeed lib0 7 db0 1 11 (body0\<lparr>b_budget := Some (- 5)\<rparr>) = (Fail 500 ''Failed to post need'', db0)
   \<and> status (fst (postNeed lib0 7 db0 1 11 (body0\<lparr>b_budget := Some (- 5)\<rparr>))) \<noteq> 400"
  by (simp add: post_defs example_defs body0_def lib0_def)

section \<open>The invariant of unlockedBy\<close>

lemma unlock_keeps: "unlockedOnce d \<Longrightarrow> unlockedOnce (snd (unlock now d idParam userId))"
  by (auto simp: unlockedOnce_def unlock_defs split: option.splits if_splits)

lemma postNeed_keeps: "unlockedOnce d \<Longrightarrow> unlockedOnce (snd (postNeed lib now d userId newId b))"
  by (auto simp: unlockedOnce_def postNeed_def newNeed_def Let_def split: option.splits if_splits)

lemma addCredits_keeps:
  "unlockedOnce d \<Longrightarrow> unlockedOnce (snd (addCredits e now d userId amount mpesaCode))"
  by (auto simp: unlockedOnce_def addCredits_def saveUser_def saveTransaction_def Let_def
      split: option.splits if_splits input.splits)

text \<open>
  Served one after another, the requests keep every \<^verbatim>\<open>unlockedBy\<close> free of
  repetitions: the check of the handler is enough when nothing runs between the check
  and the save.
\<close>

lemma sequential_unlockedOnce: "sequential d \<Longrightarrow> unlockedOnce d"
proof (induction rule: sequential.induct)
  case s_init
  show ?case by (simp add: unlockedOnce_def)
next
  case (s_register d uid u)
  then show ?case by (simp add: unlockedOnce_def)
next
  case (s_post d lib now userId newId b)
  then show ?case by (simp add: postNeed_keeps)
next
  case (s_unlocked d now idParam userId)
  then show ?case by (simp add: unlock_keeps)
next
  case (s_credited d e now userId amount mpesaCode)
  then show ?case by (simp add: addCredits_keeps)
next
  case (s_expired d nid)
  then show ?case by (simp add: unlockedOnce_def)
qed

lemma reachable_registered: "reachable (db_with (Number 0)) []"
proof -
  let ?d0 = "\<lparr>users = Map.empty, needs = Map.empty, transactions = []\<rparr>"
  let ?f = "fulfiller0\<lparr>u_credits := Some (Number 0)\<rparr>"
  have 1: "reachable (?d0\<lparr>users := (users ?d0)(1 \<mapsto> asker0)\<rparr>) []"
    by (rule reachable.register [OF reachable.init]) (simp_all add: registered_def asker0_def)
  have 2: "reachable (?d0\<lparr>users := (users ?d0)(1 \<mapsto> asker0)\<rparr>
                        \<lparr>users := (users (?d0\<lparr>users := (users ?d0)(1 \<mapsto> asker0)\<rparr>))(2 \<mapsto> ?f)\<rparr>) []"
    by (rule reachable.register [OF 1]) (simp_all add: registered_def fulfiller0_def)
  have "reachable (snd (postNeed lib0 3 (?d0\<lparr>users := (users ?d0)(1 \<mapsto> asker0)\<rparr>
                        \<lparr>users := (users (?d0\<lparr>users := (users ?d0)(1 \<mapsto> asker0)\<rparr>))(2 \<mapsto> ?f)\<rparr>)
                         1 10 body0)) []"
    by (rule reachable.post [OF 2])
  then show ?thesis
    by (simp add: post_defs example_defs db_with_def body0_def lib0_def)
qed

lemma reachable_bought: "reachable (db_bought a) []"
  unfolding db_bought_def by (rule reachable.credited [OF reachable_registered])

text \<open>
  C8. The fulfiller 2, registered with 0 credits, has bought one credit. Two unlock
  requests of this fulfiller for the need 10 both pass their checks before either saves:
  both are answered 200, the need's \<^verbatim>\<open>unlockedBy\<close> holds the fulfiller twice, the
  ledger has two unlock entries, and one credit is gone. The state is reachable, and its
  \<^verbatim>\<open>unlockedBy\<close> is not free of repetitions.
\<close>

theorem overlapping_unlocks_duplicate:
  "balance (db_bought 100) 2 = Number 1 \<and>
   unlockCheck (db_bought 100) (Some 10) 2 = Inr unlocking0 \<and>
   status (fst (unlockWrite 7 unlocking0 (db_bought 100))) = 200 \<and>
   status (fst (unlockWrite 8 unlocking0 (snd (unlockWrite 7 unlocking0 (db_bought 100))))) = 200 \<and>
   reachable (snd (unlockWrite 8 unlocking0 (snd (unlockWrite 7 unlocking0 (db_bought 100))))) [] \<and>
   map_option n_unlockedBy
     (needs (snd (unlockWrite 8 unlocking0 (snd (unlockWrite 7 unlocking0 (db_bought 100))))) 10)
     = Some [2, 2] \<and>
   map_option (\<lambda>n. distinct (n_unlockedBy n))
     (needs (snd (unlockWrite 8 unlocking0 (snd (unlockWrite 7 unlocking0 (db_bought 100))))) 10)
     = Some False \<and>
   map t_type
     (transactions (snd (unlockWrite 8 unlocking0 (snd (unlockWrite 7 unlocking0 (db_bought 100))))))
     = [''credit_purchase'', ''unlock'', ''unlock''] \<and>
   balance (snd (unlockWrite 8 unlocking0 (snd (unlockWrite 7 unlocking0 (db_bought 100))))) 2
     = Number 0"
proof -
  let ?d1 = "snd (unlockWrite 7 unlocking0 (db_bought 100))"
  let ?d2 = "snd (unlockWrite 8 unlocking0 ?d1)"
  have c: "unlockCheck (db_bought 100) (Some 10) 2 = Inr unlocking0"
    by (simp add: db_bought_100 unlock_defs fulfiller0_def need0_def unlocking0_def)
  have r0: "reachable (db_bought 100) [unlocking0, unlocking0]"
    by (intro reachable.checked [OF _ c] reachable_bought)
  have "reachable ?d1 (remove1 unlocking0 [unlocking0, unlocking0])"
    by (rule reachable.written [OF r0]) simp
  then have r1: "reachable ?d1 [unlocking0]"
    by simp
  have "reachable ?d2 (remove1 unlocking0 [unlocking0])"
    by (rule reachable.written [OF r1]) simp
  then have r2: "reachable ?d2 []"
    by simp
  have n: "map_option n_unlockedBy (needs ?d2 10) = Some [2, 2]"
    by (simp add: db_bought_100 unlock_defs asker0_def need0_def unlocking0_def)
  then have "map_option (\<lambda>n. distinct (n_unlockedBy n)) (needs ?d2 10) = Some False"
    by auto
  moreover have "status (fst (unlockWrite 7 unlocking0 (db_bought 100))) = 200"
    "status (fst (unlockWrite 8 unlocking0 ?d1)) = 200"
    "map t_type (transactions ?d2) = [''credit_purchase'', ''unlock'', ''unlock'']"
    "balance (db_bought 100) 2 = Number 1" "balance ?d2 2 = Number 0"
    by (simp_all add: db_bought_100 unlock_defs asker0_def need0_def unlocking0_def balance_def)
  ultimately show ?thesis
    using c r2 n by simp
qed

section \<open>What the read endpoints show\<close>

lemma has_key_fields_append [simp]:
  "has_key_fields k (xs @ ys) \<longleftrightarrow> has_key_fields k xs \<or> has_key_fields k ys"
  by (induction xs) auto

lemma has_key_list_map:
  "has_key_list k (map f xs) \<longleftrightarrow> (\<exists>x\<in>set xs. has_key k (f x))"
  by (induction xs) auto

lemma has_key_fields_opt:
  "has_key_fields k (opt k' v) \<longleftrightarrow> (case v of None \<Rightarrow> False | Some j \<Rightarrow> k' = k \<or> has_key k j)"
  by (simp add: opt_def split: option.splits)

lemma populate_no_contact:
  "\<not> has_key ''phone'' (populate d [''fullName'', ''location'', ''rating''] uid)"
  "\<not> has_key ''email'' (populate d [''fullName'', ''location'', ''rating''] uid)"
  "\<not> has_key ''phone'' (populate d [''fullName'', ''location'', ''rating'', ''createdAt''] uid)"
  "\<not> has_key ''email'' (populate d [''fullName'', ''location'', ''rating'', ''createdAt''] uid)"
  by (simp_all add: populate_def select_def user_json_def opt_def split: option.splits)

lemma need_json_contact:
  "has_key ''phone'' (need_json owner nid n) \<longleftrightarrow> has_key ''phone'' owner"
  "has_key ''email'' (need_json owner nid n) \<longleftrightarrow> has_key ''email'' owner"
  by (simp_all add: need_json_def has_key_fields_opt has_key_list_map offer_json_def
      split: option.splits)

lemma number_json_no_key: "\<not> has_key k (number_json x)"
  by (cases x) simp_all

lemma pages_json_no_key: "\<not> has_key k (pages_json c x)"
  by (cases x) (simp_all split: number.splits)

text \<open>
  C5. Whatever the query string, the parsers and the collection's answer, no object in
  the reply of \<^verbatim>\<open>GET /api/needs\<close> has a field named phone or email. The same
  holds for the replies of \<^verbatim>\<open>GET /api/needs/:id\<close>, of posting a need and of buying
  credits, which leaves the unlock as the one request that shows them.
\<close>

theorem listNeeds_no_contact:
  "\<not> has_key ''phone'' (body (fst (listNeeds e d q))) \<and>
   \<not> has_key ''email'' (body (fst (listNeeds e d q))) \<and>
   \<not> has_key ''phone'' (body (fst (getNeed d idParam))) \<and>
   \<not> has_key ''email'' (body (fst (getNeed d idParam))) \<and>
   \<not> has_key ''phone'' (body (fst (postNeed lib now d userId newId b))) \<and>
   \<not> has_key ''email'' (body (fst (postNeed lib now d userId newId b))) \<and>
   \<not> has_key ''phone'' (body (fst (addCredits e' now d userId amount mpesaCode))) \<and>
   \<not> has_key ''email'' (body (fst (addCredits e' now d userId amount mpesaCode)))"
proof -
  have list: "\<not> has_key ''phone'' (body (fst (listNeeds e d q)))"
    "\<not> has_key ''email'' (body (fst (listNeeds e d q)))"
    by (simp_all add: listNeeds_def Let_def has_key_list_map need_json_contact populate_no_contact
        number_json_no_key pages_json_no_key split: option.splits prod.splits)
  have one: "\<not> has_key ''phone'' (body (fst (getNeed d idParam)))"
    "\<not> has_key ''email'' (body (fst (getNeed d idParam)))"
    by (simp_all add: getNeed_def need_json_contact populate_no_contact split: option.splits)
  have post: "\<not> has_key ''phone'' (body (fst (postNeed lib now d userId newId b)))"
    "\<not> has_key ''email'' (body (fst (postNeed lib now d userId newId b)))"
    by (simp_all add: postNeed_def Let_def has_key_list_map split: option.splits)
  have add: "\<not> has_key ''phone'' (body (fst (addCredits e' now d userId amount mpesaCode)))"
    "\<not> has_key ''email'' (body (fst (addCredits e' now d userId amount mpesaCode)))"
    by (simp_all add: addCredits_def Let_def number_json_no_key split: option.splits input.splits)
  from list one post add show ?thesis
    by simp
qed

theorem listNeeds_no_contact_witness:
  "status (fst (listNeeds engine0 db0 query0)) = 200 \<and>
   has_key ''fullName'' (body (fst (listNeeds engine0 db0 query0))) \<and>
   \<not> has_key ''phone'' (body (fst (listNeeds engine0 db0 query0))) \<and>
   \<not> has_key ''email'' (body (fst (listNeeds engine0 db0 query0)))"
proof -
  have "status (fst (listNeeds engine0 db0 query0)) = 200"
    by (simp add: listNeeds_def engine0_def db0_def Let_def)
  moreover have "has_key ''fullName'' (body (fst (listNeeds engine0 db0 query0)))"
    by (simp add: listNeeds_def engine0_def example_defs need_json_def populate_def select_def
        user_json_def opt_def Let_def)
  ultimately show ?thesis
    using listNeeds_no_contact [of engine0 db0 query0] by simp
qed

lemma need_json_fields:
  "field ''user'' (need_json owner nid n) = Some owner"
  "field ''contactMethods'' (need_json owner nid n) = Some (JArr (map JStr (n_contactMethods n)))"
  "field ''unlockedBy'' (need_json owner nid n) = Some (JArr (map JId (n_unlockedBy n)))"
  "field ''offers'' (need_json owner nid n) = Some (JArr (map offer_json (n_offers n)))"
  by (simp_all add: need_json_def opt_def map_add_def split: option.splits)

lemma populate_keys:
  "users d uid = Some u \<Longrightarrow>
   keys (populate d [''fullName'', ''location'', ''rating''] uid)
     = [''_id'', ''fullName'', ''location'', ''rating'']"
  "users d uid = Some u \<Longrightarrow>
   keys (populate d [''fullName'', ''location'', ''rating'', ''createdAt''] uid)
     = [''_id'', ''fullName'', ''location'', ''rating'', ''createdAt'']"
  by (simp_all add: populate_def select_def user_json_def opt_def split: option.splits)

text \<open>
  C10. Both read endpoints answer with the need document as stored, not with a
  projection: \<^verbatim>\<open>GET /api/needs\<close> with every document the collection returned,
  \<^verbatim>\<open>GET /api/needs/:id\<close> with the document of that identifier. The serialised
  document carries \<^verbatim>\<open>contactMethods\<close>, \<^verbatim>\<open>unlockedBy\<close> and \<^verbatim>\<open>offers\<close> (with
  the fulfiller of each offer) in full. Only the owner is projected: to \<^verbatim>\<open>_id\<close>,
  fullName, location and rating in the list, and to these and createdAt for a single
  need.
\<close>

theorem read_endpoints_full_document:
  "(e_find e (buildQuery e q) (sortOption (q_sort q))
       (num_times (num_minus (pageNumber e q) (Number 1)) (limitNumber e q)) (limitNumber e q)
       (needs d) = Some found \<and>
    e_countDocuments e (buildQuery e q) (needs d) = Some cnt
      \<longrightarrow> listNeeds e d q =
            (Done 200
               (JObj [(''success'', JBool True),
                      (''needs'',
                         JArr (map (\<lambda>(nid, n).
                            need_json (populate d [''fullName'', ''location'', ''rating''] (n_user n))
                              nid n) found)),
                      (''pagination'',
                         JObj [(''total'', JNum (of_nat cnt)),
                               (''page'', number_json (pageNumber e q)),
                               (''pages'', pages_json cnt (limitNumber e q)),
                               (''limit'', number_json (limitNumber e q))])]),
             d)) \<and>
   (needs d needId = Some n
      \<longrightarrow> getNeed d (Some needId) =
            (Done 200
               (JObj [(''success'', JBool True),
                      (''need'',
                         need_json
                           (populate d [''fullName'', ''location'', ''rating'', ''createdAt''] (n_user n))
                           needId n)]),
             d)) \<and>
   field ''user'' (need_json owner nid n) = Some owner \<and>
   field ''contactMethods'' (need_json owner nid n) = Some (JArr (map JStr (n_contactMethods n))) \<and>
   field ''unlockedBy'' (need_json owner nid n) = Some (JArr (map JId (n_unlockedBy n))) \<and>
   field ''offers'' (need_json owner nid n) = Some (JArr (map offer_json (n_offers n))) \<and>
   field ''fulfiller'' (offer_json f) = Some (JId (o_fulfiller f)) \<and>
   (users d uid = Some u
      \<longrightarrow> keys (populate d [''fullName'', ''location'', ''rating''] uid)
            = [''_id'', ''fullName'', ''location'', ''rating''] \<and>
          keys (populate d [''fullName'', ''location'', ''rating'', ''createdAt''] uid)
            = [''_id'', ''fullName'', ''location'', ''rating'', ''createdAt''])"
  by (simp add: listNeeds_def getNeed_def Let_def need_json_fields populate_keys offer_json_def)

theorem read_endpoints_full_document_witness:
  "e_find engine0 (buildQuery engine0 query0) (sortOption (q_sort query0))
       (num_times (num_minus (pageNumber engine0 query0) (Number 1)) (limitNumber engine0 query0))
       (limitNumber engine0 query0) (needs db0) = Some [(10, need0)] \<and>
   e_countDocuments engine0 (buildQuery engine0 query0) (needs db0) = Some 1 \<and>
   needs db0 10 = Some need0 \<and> users db0 1 = Some asker0 \<and>
   status (fst (listNeeds engine0 db0 query0)) = 200 \<and>
   field ''pagination'' (body (fst (listNeeds engine0 db0 query0)))
     = Some (JObj [(''total'', JNum 1), (''page'', JNum 1), (''pages'', JNum 1), (''limit'', JNum 10)]) \<and>
   status (fst (getNeed db0 (Some 10))) = 200 \<and>
   keys (populate db0 [''fullName'', ''location'', ''rating''] 1)
     = [''_id'', ''fullName'', ''location'', ''rating'']"
proof -
  have h: "e_find engine0 (buildQuery engine0 query0) (sortOption (q_sort query0))
       (num_times (num_minus (pageNumber engine0 query0) (Number 1)) (limitNumber engine0 query0))
       (limitNumber engine0 query0) (needs db0) = Some [(10, need0)]"
    "e_countDocuments engine0 (buildQuery engine0 query0) (needs db0) = Some 1"
    "needs db0 10 = Some need0" "users db0 1 = Some asker0"
    by (simp_all add: engine0_def db0_def)
  have l: "limitNumber engine0 query0 = Number 10" "pageNumber engine0 query0 = Number 1"
    by (simp_all add: limitNumber_def pageNumber_def query0_def)
  have c: "pages_json 1 (Number 10) = JNum 1"
  proof -
    have "\<lceil>(3602879701896397::rat) / 36028797018963968\<rceil> = 1"
      by (rule ceiling_unique) simp_all
    then show ?thesis
      by (simp add: double_tenth)
  qed
  from read_endpoints_full_document [where e = engine0 and q = query0 and d = db0
      and found = "[(10, need0)]" and cnt = 1 and needId = 10 and n = need0 and uid = 1
      and u = asker0] h l c
  show ?thesis by simp
qed

theorem getNeed_owner_createdAt_counterexample:
  "map_option keys
     (Option.bind (field ''need'' (body (fst (getNeed db0 (Some 10))))) (field ''user''))
     = Some [''_id'', ''fullName'', ''location'', ''rating'', ''createdAt'']"
  by (simp add: getNeed_def example_defs need_json_def opt_def populate_def select_def user_json_def)

section \<open>One pass of the offline sync\<close>

lemma syncLoop_posted: "fst (syncLoop fetch snapshot store) = snapshot"
  by (induction snapshot arbitrary: store) (simp_all add: split_beta split: fetched.splits)

lemma syncLoop_store:
  "snd (syncLoop fetch snapshot store) =
     filter (\<lambda>e. \<forall>s\<in>set snapshot. qn_id s = qn_id e \<longrightarrow> fetch s = Rejected) store"
proof (induction snapshot arbitrary: store)
  case Nil
  show ?case by simp
next
  case (Cons need rest)
  show ?case
  proof (cases "fetch need")
    case (Resolved k)
    then show ?thesis
      by (auto simp: Cons.IH removeOfflineNeed_def split_beta intro!: filter_cong)
  next
    case Rejected
    then show ?thesis
      by (auto simp: Cons.IH split_beta intro!: filter_cong)
  qed
qed

text \<open>
  A pass posts every entry, in the order in which \<^verbatim>\<open>getAll()\<close> lists the store, and
  keeps exactly the entries whose request was rejected: a request that throws neither
  removes its entry nor stops the loop.
\<close>

lemma syncNeeds_pass:
  "syncNeeds fetch store =
     (store, filter (\<lambda>e. \<forall>s\<in>set store. qn_id s = qn_id e \<longrightarrow> fetch s = Rejected) store)"
  by (simp add: syncNeeds_def getOfflineNeeds_def prod_eq_iff syncLoop_posted syncLoop_store)

text \<open>
  C7. The pass removes an entry whenever the promise of \<^verbatim>\<open>fetch\<close> resolves, and it
  resolves for every response: with a server that answers 401 to both requests (what
  \<^verbatim>\<open>POST /api/needs\<close> answers to a request without a token, and the pass sends none)
  both entries are posted in order and both are gone from the queue afterwards, though
  neither submission succeeded.
\<close>

theorem syncNeeds_removes_refused:
  "syncNeeds (\<lambda>need. Resolved 401) [queued1, queued2] = ([queued1, queued2], [])"
  by (simp add: syncNeeds_def getOfflineNeeds_def removeOfflineNeed_def queued1_def queued2_def)

end
